theory Spec2Isabelle
  imports Complex_Main "HOL-Library.Word" "HOL-Library.Log_Nat"
begin

section \<open>The number type: IEEE-754 binary64\<close>

text \<open>
  Every \<^verbatim>\<open>number\<close> of the library is a double.  A double is its three bit fields:
  the sign bit, the 11-bit biased exponent and the 52-bit fraction, so every value of the
  type below is a double and every double is a value of the type.  Exponent field 2047 is
  an infinity (fraction 0) or a NaN (any other fraction); exponent field 0 is a zero or a
  subnormal.
\<close>

datatype double = Double (sign: bool) (expo: "11 word") (mant: "52 word")

definition fnan :: double where
  "fnan = Double False 2047 (2 ^ 51)"

definition finf :: "bool \<Rightarrow> double" where
  "finf s = Double s 2047 0"

definition fzero :: "bool \<Rightarrow> double" where
  "fzero s = Double s 0 0"

definition isNaN :: "double \<Rightarrow> bool" where
  "isNaN d \<longleftrightarrow> expo d = 2047 \<and> mant d \<noteq> 0"

definition isInf :: "double \<Rightarrow> bool" where
  "isInf d \<longleftrightarrow> expo d = 2047 \<and> mant d = 0"

definition isFinite :: "double \<Rightarrow> bool" where
  "isFinite d \<longleftrightarrow> expo d \<noteq> 2047"

definition isZero :: "double \<Rightarrow> bool" where
  "isZero d \<longleftrightarrow> expo d = 0 \<and> mant d = 0"

text \<open>
  The magnitude of a finite double, counted in units of the least positive double (2 to
  the power -1074), is a natural number.
\<close>

definition emin :: nat where
  "emin = 1074"

definition ulps :: "double \<Rightarrow> nat" where
  "ulps d = (if expo d = 0 then unat (mant d)
             else (2 ^ 52 + unat (mant d)) * 2 ^ (unat (expo d) - 1))"

definition absval :: "double \<Rightarrow> real" where
  "absval d = real (ulps d) / 2 ^ emin"

definition valof :: "double \<Rightarrow> real" where
  "valof d = (if sign d then - absval d else absval d)"

text \<open>
  Rounding to nearest, ties to even.  \<open>rhe\<close> rounds a non-negative real to a natural
  number; \<open>fexp t\<close> is the binade of \<open>t\<close> (0 for the subnormals and the first normal
  binade); \<open>encode\<close> reads the 63 magnitude bits of a double off a natural number, where a
  significand that rounded up to 2 to the power 53 carries into the exponent field and an exponent
  field of 2047 is the overflow to infinity.
\<close>

definition rhe :: "real \<Rightarrow> nat" where
  "rhe x = (let f = nat \<lfloor>x\<rfloor>; d = x - of_int \<lfloor>x\<rfloor> in
            if d < 1 / 2 then f
            else if 1 / 2 < d then f + 1
            else if even f then f else f + 1)"

definition encode :: "bool \<Rightarrow> nat \<Rightarrow> double" where
  "encode s k = (if 2047 * 2 ^ 52 \<le> k then finf s
                 else Double s (of_nat (k div 2 ^ 52)) (of_nat (k mod 2 ^ 52)))"

definition fexp :: "real \<Rightarrow> nat" where
  "fexp t = nat (bitlen \<lfloor>t\<rfloor> - 53)"

definition fround :: "bool \<Rightarrow> real \<Rightarrow> double" where
  "fround s r = (let t = r * 2 ^ emin; j = fexp t
                 in encode s (j * 2 ^ 52 + rhe (t / 2 ^ j)))"

text \<open>A numeric literal of the source denotes the double nearest to it.\<close>

definition lit :: "real \<Rightarrow> double" where
  "lit r = fround (r < 0) \<bar>r\<bar>"

text \<open>
  The operators of the language on numbers: \<^verbatim>\<open>+ - * /\<close>, unary minus,
  \<^verbatim>\<open>Math.sqrt\<close>, and the comparisons \<^verbatim>\<open>===\<close>, \<^verbatim>\<open><\<close>, \<^verbatim>\<open><=\<close>, \<^verbatim>\<open>>\<close>.  Each
  arithmetic operator computes the exact result and rounds it once; the special values
  follow IEEE-754.
\<close>

definition fneg :: "double \<Rightarrow> double" where
  "fneg a = Double (\<not> sign a) (expo a) (mant a)"

definition fadd :: "double \<Rightarrow> double \<Rightarrow> double" where
  "fadd a b =
     (if isNaN a \<or> isNaN b then fnan
      else if isInf a then (if isInf b \<and> sign a \<noteq> sign b then fnan else a)
      else if isInf b then b
      else let r = valof a + valof b in
        if r = 0 then fzero (sign a \<and> sign b) else fround (r < 0) \<bar>r\<bar>)"

definition fsub :: "double \<Rightarrow> double \<Rightarrow> double" where
  "fsub a b = fadd a (fneg b)"

definition fmul :: "double \<Rightarrow> double \<Rightarrow> double" where
  "fmul a b =
     (if isNaN a \<or> isNaN b then fnan
      else if isInf a \<or> isInf b then
        (if isZero a \<or> isZero b then fnan else finf (sign a \<noteq> sign b))
      else fround (sign a \<noteq> sign b) (absval a * absval b))"

definition fdiv :: "double \<Rightarrow> double \<Rightarrow> double" where
  "fdiv a b =
     (if isNaN a \<or> isNaN b then fnan
      else if isInf a then (if isInf b then fnan else finf (sign a \<noteq> sign b))
      else if isInf b then fzero (sign a \<noteq> sign b)
      else if isZero b then (if isZero a then fnan else finf (sign a \<noteq> sign b))
      else fround (sign a \<noteq> sign b) (absval a / absval b))"

definition fsqrt :: "double \<Rightarrow> double" where
  "fsqrt a =
     (if isNaN a then fnan
      else if isZero a then a
      else if sign a then fnan
      else if isInf a then a
      else fround False (sqrt (absval a)))"

definition feq :: "double \<Rightarrow> double \<Rightarrow> bool" where
  "feq a b \<longleftrightarrow> \<not> isNaN a \<and> \<not> isNaN b \<and>
     (if isInf a \<or> isInf b then a = b else valof a = valof b)"

definition flt :: "double \<Rightarrow> double \<Rightarrow> bool" where
  "flt a b \<longleftrightarrow> \<not> isNaN a \<and> \<not> isNaN b \<and>
     (if isInf a then sign a \<and> \<not> (isInf b \<and> sign b)
      else if isInf b then \<not> sign b
      else valof a < valof b)"

definition fle :: "double \<Rightarrow> double \<Rightarrow> bool" where
  "fle a b \<longleftrightarrow> flt a b \<or> feq a b"


section \<open>The data model\<close>

text \<open>
  The fields \<^verbatim>\<open>x\<close>, \<^verbatim>\<open>y\<close>, \<^verbatim>\<open>z\<close> (and \<^verbatim>\<open>w\<close>, \<^verbatim>\<open>m\<close>) of the source carry the
  name of their class as a prefix here.  A matrix is its flat storage of sixteen numbers.
\<close>

record Vector3 =
  vec_x :: double
  vec_y :: double
  vec_z :: double

record Quaternion =
  quat_x :: double
  quat_y :: double
  quat_z :: double
  quat_w :: double

record Matrix =
  mat_m :: "double list"

text \<open>
  Objects are mutable and passed by reference, and a result parameter may be the same
  object as an operand.  The heap maps each reference to the object it denotes, one store
  per class; \<open>nextRef\<close> is the reference the next \<^verbatim>\<open>new Vector3\<close> gets.  The scratch pool
  \<^verbatim>\<open>MathTmp\<close> is part of the heap: the references of its \<^verbatim>\<open>Vector3\<close> and
  \<^verbatim>\<open>Quaternion\<close> arrays.
\<close>

type_synonym ref = nat

record heap =
  vector3s :: "ref \<Rightarrow> Vector3"
  quaternions :: "ref \<Rightarrow> Quaternion"
  matrices :: "ref \<Rightarrow> Matrix"
  nextRef :: ref
  MathTmp_Vector3 :: "ref list"
  MathTmp_Quaternion :: "ref list"

text \<open>
  Reading an array: an index past the end gives \<^verbatim>\<open>undefined\<close>, which arithmetic turns
  into NaN.  Reading a slot of the scratch pool: a missing slot is \<^verbatim>\<open>undefined\<close>, and
  the method call on it throws, which is \<open>None\<close> here.
\<close>

definition mget :: "double list \<Rightarrow> nat \<Rightarrow> double" where
  "mget a i = (if i < length a then a ! i else fnan)"

definition slot :: "ref list \<Rightarrow> nat \<Rightarrow> ref option" where
  "slot a i = (if i < length a then Some (a ! i) else None)"

section \<open>Vector3\<close>

subsection \<open>Construction and copying\<close>

definition newVector3 :: "heap \<Rightarrow> double \<Rightarrow> double \<Rightarrow> double \<Rightarrow> ref \<times> heap" where
  "newVector3 h x y z =
     (nextRef h,
      h\<lparr>vector3s := (vector3s h)(nextRef h := \<lparr>vec_x = x, vec_y = y, vec_z = z\<rparr>),
        nextRef := Suc (nextRef h)\<rparr>)"

definition Zero :: "heap \<Rightarrow> ref \<times> heap" where
  "Zero h = newVector3 h (fzero False) (fzero False) (fzero False)"

definition copyFromFloats :: "heap \<Rightarrow> ref \<Rightarrow> double \<Rightarrow> double \<Rightarrow> double \<Rightarrow> ref \<times> heap" where
  "copyFromFloats h this x y z =
     (this, h\<lparr>vector3s := (vector3s h)(this := \<lparr>vec_x = x, vec_y = y, vec_z = z\<rparr>)\<rparr>)"


subsection \<open>Arithmetic\<close>

definition add :: "heap \<Rightarrow> ref \<Rightarrow> ref \<Rightarrow> ref \<times> heap" where
  "add h this otherVector =
     (let t = vector3s h this; ov = vector3s h otherVector in
      newVector3 h (fadd (vec_x t) (vec_x ov)) (fadd (vec_y t) (vec_y ov))
        (fadd (vec_z t) (vec_z ov)))"

definition addToRef :: "heap \<Rightarrow> ref \<Rightarrow> ref \<Rightarrow> ref \<Rightarrow> ref \<times> heap" where
  "addToRef h this otherVector result =
     (let t = vector3s h this; ov = vector3s h otherVector in
      copyFromFloats h result (fadd (vec_x t) (vec_x ov)) (fadd (vec_y t) (vec_y ov))
        (fadd (vec_z t) (vec_z ov)))"

definition subtract :: "heap \<Rightarrow> ref \<Rightarrow> ref \<Rightarrow> ref \<times> heap" where
  "subtract h this otherVector =
     (let t = vector3s h this; ov = vector3s h otherVector in
      newVector3 h (fsub (vec_x t) (vec_x ov)) (fsub (vec_y t) (vec_y ov))
        (fsub (vec_z t) (vec_z ov)))"

definition scaleInPlace :: "heap \<Rightarrow> ref \<Rightarrow> double \<Rightarrow> ref \<times> heap" where
  "scaleInPlace h this scale =
     (let h1 = h\<lparr>vector3s := (vector3s h)
                  (this := (vector3s h this)\<lparr>vec_x := fmul (vec_x (vector3s h this)) scale\<rparr>)\<rparr>;
          h2 = h1\<lparr>vector3s := (vector3s h1)
                  (this := (vector3s h1 this)\<lparr>vec_y := fmul (vec_y (vector3s h1 this)) scale\<rparr>)\<rparr>;
          h3 = h2\<lparr>vector3s := (vector3s h2)
                  (this := (vector3s h2 this)\<lparr>vec_z := fmul (vec_z (vector3s h2 this)) scale\<rparr>)\<rparr>
      in (this, h3))"

definition scale :: "heap \<Rightarrow> ref \<Rightarrow> double \<Rightarrow> ref \<times> heap" where
  "scale h this s =
     (let t = vector3s h this in
      newVector3 h (fmul (vec_x t) s) (fmul (vec_y t) s) (fmul (vec_z t) s))"

definition scaleToRef :: "heap \<Rightarrow> ref \<Rightarrow> double \<Rightarrow> ref \<Rightarrow> ref \<times> heap" where
  "scaleToRef h this s result =
     (let t = vector3s h this in
      copyFromFloats h result (fmul (vec_x t) s) (fmul (vec_y t) s) (fmul (vec_z t) s))"

subsection \<open>Equality\<close>

text \<open>
  The guard \<^verbatim>\<open>otherVector &&\<close> of the two equalities is true of every object, and a
  reference of the heap always denotes one.
\<close>

definition equals :: "heap \<Rightarrow> ref \<Rightarrow> ref \<Rightarrow> bool" where
  "equals h this otherVector \<longleftrightarrow>
     feq (vec_x (vector3s h this)) (vec_x (vector3s h otherVector)) \<and>
     feq (vec_y (vector3s h this)) (vec_y (vector3s h otherVector)) \<and>
     feq (vec_z (vector3s h this)) (vec_z (vector3s h otherVector))"

text \<open>
  Modelled from the spec: \<^verbatim>\<open>Epsilon\<close> (types.ts) and \<^verbatim>\<open>Scalar.WithinEpsilon\<close>
  (Scalar.ts) are imported by the source and are not part of it.  The spec calls the first
  "a small library-wide constant", taken here as the literal 0.000001, and the second a
  "comparison that treats two floating-point values as equal if their difference is below
  a small threshold": the difference is computed and compared with the threshold on both
  sides.
\<close>

definition Epsilon :: double where
  "Epsilon = lit (1 / 1000000)"

definition WithinEpsilon :: "double \<Rightarrow> double \<Rightarrow> double \<Rightarrow> bool" where
  "WithinEpsilon a b epsilon \<longleftrightarrow>
     (let num = fsub a b in fle (fneg epsilon) num \<and> fle num epsilon)"

definition equalsWithEpsilon :: "heap \<Rightarrow> ref \<Rightarrow> ref \<Rightarrow> double \<Rightarrow> bool" where
  "equalsWithEpsilon h this otherVector epsilon \<longleftrightarrow>
     WithinEpsilon (vec_x (vector3s h this)) (vec_x (vector3s h otherVector)) epsilon \<and>
     WithinEpsilon (vec_y (vector3s h this)) (vec_y (vector3s h otherVector)) epsilon \<and>
     WithinEpsilon (vec_z (vector3s h this)) (vec_z (vector3s h otherVector)) epsilon"

subsection \<open>Length and normalization\<close>

definition length_Vector3 :: "heap \<Rightarrow> ref \<Rightarrow> double" where
  "length_Vector3 h this =
     (let t = vector3s h this in
      fsqrt (fadd (fadd (fmul (vec_x t) (vec_x t)) (fmul (vec_y t) (vec_y t)))
                  (fmul (vec_z t) (vec_z t))))"

definition normalizeFromLength :: "heap \<Rightarrow> ref \<Rightarrow> double \<Rightarrow> ref \<times> heap" where
  "normalizeFromLength h this len =
     (if feq len (lit 0) \<or> feq len (lit 1) then (this, h)
      else scaleInPlace h this (fdiv (lit 1) len))"

definition normalize :: "heap \<Rightarrow> ref \<Rightarrow> ref \<times> heap" where
  "normalize h this = normalizeFromLength h this (length_Vector3 h this)"

definition normalizeToRef :: "heap \<Rightarrow> ref \<Rightarrow> ref \<Rightarrow> ref \<times> heap" where
  "normalizeToRef h this reference =
     (let len = length_Vector3 h this in
      if feq len (lit 0) \<or> feq len (lit 1) then
        copyFromFloats h reference (vec_x (vector3s h this)) (vec_y (vector3s h this))
          (vec_z (vector3s h this))
      else scaleToRef h this (fdiv (lit 1) len) reference)"

subsection \<open>Products, clip factor, angle\<close>

definition Dot :: "heap \<Rightarrow> ref \<Rightarrow> ref \<Rightarrow> double" where
  "Dot h left right =
     (let l = vector3s h left; r = vector3s h right in
      fadd (fadd (fmul (vec_x l) (vec_x r)) (fmul (vec_y l) (vec_y r)))
           (fmul (vec_z l) (vec_z r)))"


definition GetClipFactor :: "heap \<Rightarrow> ref \<Rightarrow> ref \<Rightarrow> ref \<Rightarrow> double \<Rightarrow> double" where
  "GetClipFactor h vector0 vector1 axis size' =
     (let d0 = fsub (Dot h vector0 axis) size';
          d1 = fsub (Dot h vector1 axis) size';
          s = fdiv d0 (fsub d0 d1)
      in s)"


subsection \<open>Transformations by a matrix\<close>

definition TransformCoordinatesFromFloatsToRef ::
  "heap \<Rightarrow> double \<Rightarrow> double \<Rightarrow> double \<Rightarrow> ref \<Rightarrow> ref \<Rightarrow> heap" where
  "TransformCoordinatesFromFloatsToRef h x y z transformation result =
     (let m = mat_m (matrices h transformation);
          rx = fadd (fadd (fadd (fmul x (mget m 0)) (fmul y (mget m 4))) (fmul z (mget m 8)))
                 (mget m 12);
          ry = fadd (fadd (fadd (fmul x (mget m 1)) (fmul y (mget m 5))) (fmul z (mget m 9)))
                 (mget m 13);
          rz = fadd (fadd (fadd (fmul x (mget m 2)) (fmul y (mget m 6))) (fmul z (mget m 10)))
                 (mget m 14);
          rw = fdiv (lit 1)
                 (fadd (fadd (fadd (fmul x (mget m 3)) (fmul y (mget m 7))) (fmul z (mget m 11)))
                    (mget m 15));
          h1 = h\<lparr>vector3s := (vector3s h)
                  (result := (vector3s h result)\<lparr>vec_x := fmul rx rw\<rparr>)\<rparr>;
          h2 = h1\<lparr>vector3s := (vector3s h1)
                  (result := (vector3s h1 result)\<lparr>vec_y := fmul ry rw\<rparr>)\<rparr>;
          h3 = h2\<lparr>vector3s := (vector3s h2)
                  (result := (vector3s h2 result)\<lparr>vec_z := fmul rz rw\<rparr>)\<rparr>
      in h3)"

definition TransformCoordinatesToRef :: "heap \<Rightarrow> ref \<Rightarrow> ref \<Rightarrow> ref \<Rightarrow> heap" where
  "TransformCoordinatesToRef h vector transformation result =
     TransformCoordinatesFromFloatsToRef h (vec_x (vector3s h vector)) (vec_y (vector3s h vector))
       (vec_z (vector3s h vector)) transformation result"

definition TransformCoordinates :: "heap \<Rightarrow> ref \<Rightarrow> ref \<Rightarrow> ref \<times> heap" where
  "TransformCoordinates h vector transformation =
     (let (result, h1) = Zero h;
          h2 = TransformCoordinatesToRef h1 vector transformation result
      in (result, h2))"

definition TransformNormalFromFloatsToRef ::
  "heap \<Rightarrow> double \<Rightarrow> double \<Rightarrow> double \<Rightarrow> ref \<Rightarrow> ref \<Rightarrow> heap" where
  "TransformNormalFromFloatsToRef h x y z transformation result =
     (let m = mat_m (matrices h transformation);
          h1 = h\<lparr>vector3s := (vector3s h)
                  (result := (vector3s h result)
                     \<lparr>vec_x := fadd (fadd (fmul x (mget m 0)) (fmul y (mget m 4)))
                                 (fmul z (mget m 8))\<rparr>)\<rparr>;
          h2 = h1\<lparr>vector3s := (vector3s h1)
                  (result := (vector3s h1 result)
                     \<lparr>vec_y := fadd (fadd (fmul x (mget m 1)) (fmul y (mget m 5)))
                                 (fmul z (mget m 9))\<rparr>)\<rparr>;
          h3 = h2\<lparr>vector3s := (vector3s h2)
                  (result := (vector3s h2 result)
                     \<lparr>vec_z := fadd (fadd (fmul x (mget m 2)) (fmul y (mget m 6)))
                                 (fmul z (mget m 10))\<rparr>)\<rparr>
      in h3)"

definition TransformNormalToRef :: "heap \<Rightarrow> ref \<Rightarrow> ref \<Rightarrow> ref \<Rightarrow> heap" where
  "TransformNormalToRef h vector transformation result =
     TransformNormalFromFloatsToRef h (vec_x (vector3s h vector)) (vec_y (vector3s h vector))
       (vec_z (vector3s h vector)) transformation result"

definition TransformNormal :: "heap \<Rightarrow> ref \<Rightarrow> ref \<Rightarrow> ref \<times> heap" where
  "TransformNormal h vector transformation =
     (let (result, h1) = Zero h;
          h2 = TransformNormalToRef h1 vector transformation result
      in (result, h2))"

text \<open>
  Modelled from the spec: \<^verbatim>\<open>Matrix.Identity\<close> (Matrix.ts) is not part of the source.
  The spec gives the layout, "sixteen floats in column-major flat layout (indices 0-15,
  with translation in indices 12-14 and the homogeneous row at 3/7/11/15)"; the identity
  has 1 on the diagonal (indices 0, 5, 10, 15) and 0 elsewhere.
\<close>

definition IdentityValues :: "double list" where
  "IdentityValues =
     [lit 1, lit 0, lit 0, lit 0,
      lit 0, lit 1, lit 0, lit 0,
      lit 0, lit 0, lit 1, lit 0,
      lit 0, lit 0, lit 0, lit 1]"

subsection \<open>Rotation from three axes\<close>





section \<open>What the operations compute, on the values of the vectors\<close>

text \<open>
  The theorems state the result of an operation on the heap by the same computation on the
  values its operands hold when it is called.
\<close>

definition dotV :: "Vector3 \<Rightarrow> Vector3 \<Rightarrow> double" where
  "dotV l r = fadd (fadd (fmul (vec_x l) (vec_x r)) (fmul (vec_y l) (vec_y r)))
                   (fmul (vec_z l) (vec_z r))"


definition lengthV :: "Vector3 \<Rightarrow> double" where
  "lengthV t = fsqrt (fadd (fadd (fmul (vec_x t) (vec_x t)) (fmul (vec_y t) (vec_y t)))
                           (fmul (vec_z t) (vec_z t)))"

definition scaledV :: "Vector3 \<Rightarrow> double \<Rightarrow> Vector3" where
  "scaledV t s = \<lparr>vec_x = fmul (vec_x t) s, vec_y = fmul (vec_y t) s, vec_z = fmul (vec_z t) s\<rparr>"

definition normalizedV :: "Vector3 \<Rightarrow> Vector3" where
  "normalizedV t =
     (if feq (lengthV t) (lit 0) \<or> feq (lengthV t) (lit 1) then t
      else scaledV t (fdiv (lit 1) (lengthV t)))"

text \<open>A zero of either sign read as the positive zero; every other double as itself.\<close>

definition positiveZero :: "double \<Rightarrow> double" where
  "positiveZero d = (if isZero d then fzero False else d)"

text \<open>A vector whose three components are finite and of magnitude below \<open>2 ^ k\<close>.\<close>

definition componentsBelow :: "nat \<Rightarrow> Vector3 \<Rightarrow> bool" where
  "componentsBelow k t \<longleftrightarrow>
     isFinite (vec_x t) \<and> absval (vec_x t) < 2 ^ k \<and>
     isFinite (vec_y t) \<and> absval (vec_y t) < 2 ^ k \<and>
     isFinite (vec_z t) \<and> absval (vec_z t) < 2 ^ k"

section \<open>Example heaps\<close>

text \<open>
  The heap right after the scratch pool is built (six zero vectors and three zero
  quaternions, as \<^verbatim>\<open>getMathTmp\<close> allocates them) and nothing else is.
\<close>

definition pooledHeap :: heap where
  "pooledHeap =
     \<lparr>vector3s = (\<lambda>_. \<lparr>vec_x = fzero False, vec_y = fzero False, vec_z = fzero False\<rparr>),
      quaternions = (\<lambda>_. \<lparr>quat_x = fzero False, quat_y = fzero False, quat_z = fzero False,
                           quat_w = fzero False\<rparr>),
      matrices = (\<lambda>_. \<lparr>mat_m = IdentityValues\<rparr>),
      nextRef = 6,
      MathTmp_Vector3 = [0, 1, 2, 3, 4, 5],
      MathTmp_Quaternion = [0, 1, 2]\<rparr>"

text \<open>The same heap with one more vector, at reference 6.\<close>

definition heapWith :: "double \<Rightarrow> double \<Rightarrow> double \<Rightarrow> heap" where
  "heapWith x y z = snd (newVector3 pooledHeap x y z)"

text \<open>The same heap with two more vectors, at references 6 and 7.\<close>

definition heapWith2 :: "double \<Rightarrow> double \<Rightarrow> double \<Rightarrow> double \<Rightarrow> double \<Rightarrow> double \<Rightarrow> heap" where
  "heapWith2 x y z x' y' z' = snd (newVector3 (heapWith x y z) x' y' z')"

text \<open>The same heap with three more vectors, at references 6, 7 and 8.\<close>

definition heapWith3 :: "Vector3 \<Rightarrow> Vector3 \<Rightarrow> Vector3 \<Rightarrow> heap" where
  "heapWith3 a b c =
     snd (newVector3 (snd (newVector3 (snd (newVector3 pooledHeap (vec_x a) (vec_y a) (vec_z a)))
       (vec_x b) (vec_y b) (vec_z b))) (vec_x c) (vec_y c) (vec_z c))"



section \<open>Facts about rounding\<close>

lemma rhe_of_nat: "rhe (real n) = n"
  by (simp add: rhe_def)

lemma rhe_err: 
  assumes "0 \<le> x"
  shows "\<bar>real (rhe x) - x\<bar> \<le> 1 / 2"
proof -
  define f where "f = \<lfloor>x\<rfloor>"
  have f: "real (nat f) = of_int f" using assms by (simp add: f_def)
  have l: "of_int f \<le> x" and u: "x < of_int f + 1" unfolding f_def by linarith+
  consider "x - of_int f < 1 / 2" | "1 / 2 < x - of_int f" | "x - of_int f = 1 / 2"
    by linarith
  then show ?thesis
  proof cases
    case 1
    then have "rhe x = nat f" by (simp add: rhe_def f_def)
    then show ?thesis using 1 l f by simp
  next
    case 2
    then have "rhe x = nat f + 1" by (simp add: rhe_def f_def)
    then show ?thesis using 2 u f by simp
  next
    case 3
    then have "rhe x = nat f \<or> rhe x = nat f + 1" by (simp add: rhe_def f_def Let_def)
    then show ?thesis using 3 f by auto
  qed
qed

lemma bitlen_le_nat: "bitlen i \<le> int n \<longleftrightarrow> i < 2 ^ n"
  using bitlen_le_iff_power [of i "int n"] by simp

lemma bitlen_ge_nat: "int (Suc n) \<le> bitlen i \<longleftrightarrow> 2 ^ n \<le> i"
proof -
  have "nat (int (Suc n)) - 1 = n" by simp
  then show ?thesis
    using bitlen_ge_iff_power [of "int (Suc n)" i] by (simp del: of_nat_Suc)
qed

lemma floor_less_pow: "\<lfloor>t::real\<rfloor> < 2 ^ n \<longleftrightarrow> t < 2 ^ n"
  by (metis floor_less_iff of_int_numeral of_int_power)

lemma le_floor_pow: "2 ^ n \<le> \<lfloor>t::real\<rfloor> \<longleftrightarrow> 2 ^ n \<le> t"
  by (metis le_floor_iff of_int_numeral of_int_power)

lemma fexp_upper: "t < 2 ^ (53 + fexp t)"
proof -
  have "bitlen \<lfloor>t\<rfloor> \<le> int (53 + fexp t)"
    unfolding fexp_def by simp
  then show ?thesis
    unfolding bitlen_le_nat floor_less_pow .
qed

lemma fexp_lower: 
  assumes "0 < fexp t" 
  shows "2 ^ (52 + fexp t) \<le> t"
proof -
  have "int (Suc (52 + fexp t)) \<le> bitlen \<lfloor>t\<rfloor>"
    using assms unfolding fexp_def by simp
  then show ?thesis
    unfolding bitlen_ge_nat le_floor_pow .
qed

lemma fexp_eq:
  assumes "2 ^ (52 + j) \<le> t" "t < 2 ^ (53 + j)"
  shows "fexp t = j"
proof -
  have "bitlen \<lfloor>t\<rfloor> \<le> int (53 + j)" 
    unfolding bitlen_le_nat floor_less_pow using assms(2) .
  moreover have "int (Suc (52 + j)) \<le> bitlen \<lfloor>t\<rfloor>" 
    unfolding bitlen_ge_nat le_floor_pow using assms(1) .
  ultimately show ?thesis unfolding fexp_def by simp
qed

lemma fexp_small:
  assumes "t < 2 ^ 53"
  shows "fexp t = 0"
proof -
  have "bitlen \<lfloor>t\<rfloor> \<le> int 53" 
    unfolding bitlen_le_nat floor_less_pow using assms .
  then show ?thesis unfolding fexp_def by simp
qed

lemma unat_of_nat_eq: "n < 2 ^ LENGTH('a) \<Longrightarrow> unat (of_nat n :: 'a::len word) = n"
  by (simp add: unat_of_nat)

lemma unat_of_nat52: "n < 2 ^ 52 \<Longrightarrow> unat (of_nat n :: 52 word) = n"
  by (simp add: unat_of_nat_eq)

lemma unat_of_nat11: "n < 2 ^ 11 \<Longrightarrow> unat (of_nat n :: 11 word) = n"
  by (simp add: unat_of_nat_eq)

lemma of_nat11_eq_2047: "n < 2047 \<Longrightarrow> (of_nat n :: 11 word) \<noteq> 2047"
proof
  assume n: "n < 2047" and e: "(of_nat n :: 11 word) = 2047"
  have "unat (of_nat n :: 11 word) = n" using n by (simp add: unat_of_nat_eq)
  moreover have "unat (2047 :: 11 word) = 2047" by simp
  ultimately show False using e n by simp
qed

lemma of_nat11_eq_0: "0 < n \<Longrightarrow> n < 2047 \<Longrightarrow> (of_nat n :: 11 word) \<noteq> 0"
proof
  assume n: "0 < n" "n < 2047" and e: "(of_nat n :: 11 word) = 0"
  have "unat (of_nat n :: 11 word) = n" using n by (simp add: unat_of_nat_eq)
  then show False using e n by simp
qed

lemma divmod_shift:
  fixes P :: nat
  assumes "r < P"
  shows "(q * P + r) div P = q" "(q * P + r) mod P = r"
  using assms by simp_all

lemma divmod_nor:
  fixes P :: nat
  assumes "P \<le> n" "n < 2 * P"
  shows "(j * P + n) div P = j + 1" "(j * P + n) mod P = n - P"
proof -
  have e: "j * P + n = (j + 1) * P + (n - P)" using assms by (simp add: algebra_simps)
  have r: "n - P < P" using assms by simp
  show "(j * P + n) div P = j + 1" unfolding e using divmod_shift(1) [OF r] .
  show "(j * P + n) mod P = n - P" unfolding e using divmod_shift(2) [OF r] .
qed

lemma divmod_top:
  fixes P :: nat
  assumes "0 < P"
  shows "(j * P + 2 * P) div P = j + 2" "(j * P + 2 * P) mod P = 0"
proof -
  have e: "j * P + 2 * P = (j + 2) * P + 0" by (simp add: algebra_simps)
  show "(j * P + 2 * P) div P = j + 2" unfolding e using divmod_shift(1) [OF assms] .
  show "(j * P + 2 * P) mod P = 0" unfolding e using divmod_shift(2) [OF assms] .
qed

lemma encode_ulps:
  assumes n: "n \<le> 2 ^ 53" and j: "0 < j \<Longrightarrow> 2 ^ 52 \<le> n"
    and k: "j * 2 ^ 52 + n < 2047 * 2 ^ 52"
  shows "ulps (encode s (j * 2 ^ 52 + n)) = n * 2 ^ j"
    and "isFinite (encode s (j * 2 ^ 52 + n))"
    and "sign (encode s (j * 2 ^ 52 + n)) = s"
proof -
  define P :: nat where "P = 2 ^ 52"
  have P0: "0 < P" by (simp add: P_def)
  have n2: "n \<le> 2 * P" using n by (simp add: P_def)
  let ?k = "j * P + n"
  have k': "?k < 2047 * P" using k by (simp add: P_def)
  have enc: "encode s (j * 2 ^ 52 + n) = Double s (of_nat (?k div P)) (of_nat (?k mod P))"
    using k by (simp add: encode_def P_def)
  have d: "?k div P < 2047" using k' P0 
    by (simp only: div_less_iff_less_mult)
  show "isFinite (encode s (j * 2 ^ 52 + n))"
    unfolding enc isFinite_def using of_nat11_eq_2047 [OF d] by simp
  show "sign (encode s (j * 2 ^ 52 + n)) = s" unfolding enc by simp
  consider (sub) "n < P" | (nor) "P \<le> n" "n < 2 * P" | (top) "n = 2 * P"
    using n2 by linarith
  then show "ulps (encode s (j * 2 ^ 52 + n)) = n * 2 ^ j"
  proof cases
    case sub
    then have j0: "j = 0" using j by (auto simp: P_def)
    have "unat (of_nat n :: 52 word) = n"
      by (rule unat_of_nat52) (use sub in \<open>simp add: P_def\<close>)
    then show ?thesis unfolding enc ulps_def using sub j0
      by simp
  next
    case nor
    have dv: "?k div P = j + 1" and md: "?k mod P = n - P" 
      using divmod_nor [OF nor] by auto
    have j1: "j + 1 < 2047" using d dv by simp
    have e0: "(of_nat (j + 1) :: 11 word) \<noteq> 0" 
      by (rule of_nat11_eq_0) (use j1 in auto)
    have ue: "unat (of_nat (j + 1) :: 11 word) = j + 1"
      by (rule unat_of_nat11) (use j1 in simp)
    have uf: "unat (of_nat (n - P) :: 52 word) = n - P"
      by (rule unat_of_nat52) (use nor in \<open>simp add: P_def\<close>)
    have "2 ^ 52 + (n - P) = n" using nor by (simp add: P_def)
    then show ?thesis unfolding enc dv md ulps_def using e0 ue uf
      by simp
  next
    case top
    have dv: "?k div P = j + 2" and md: "?k mod P = 0" 
      unfolding top using divmod_top [OF P0] by auto
    have j1: "j + 2 < 2047" using d dv by simp
    have e0: "(of_nat (j + 2) :: 11 word) \<noteq> 0" 
      by (rule of_nat11_eq_0) (use j1 in auto)
    have ue: "unat (of_nat (j + 2) :: 11 word) = j + 2"
      by (rule unat_of_nat11) (use j1 in simp)
    have "(2::nat) ^ 52 * 2 ^ (j + 1) = n * 2 ^ j" unfolding top P_def by simp
    then show ?thesis unfolding enc dv md ulps_def using e0 ue
      by simp
  qed
qed


lemma rhe_le_pow: 
  assumes "0 \<le> x" "x < 2 ^ m"
  shows "rhe x \<le> 2 ^ m"
proof -
  have "real (rhe x) \<le> x + 1 / 2" using rhe_err [OF assms(1)] by linarith
  then have "real (rhe x) < real (2 ^ m) + 1" using assms(2) by simp
  then have "real (rhe x) < real (2 ^ m + 1)" by simp
  then have "rhe x < 2 ^ m + 1" unfolding of_nat_less_iff .
  then show ?thesis by simp
qed

lemma rhe_ge_pow:
  assumes "2 ^ m \<le> x"
  shows "2 ^ m \<le> rhe x"
proof -
  have x0: "0 \<le> x" using assms by (smt (verit) zero_le_power)
  have "x - 1 / 2 \<le> real (rhe x)" using rhe_err [OF x0] by linarith
  then have "real (2 ^ m) - 1 < real (rhe x)" using assms by simp
  then have "real (2 ^ m) < real (rhe x + 1)" by simp
  then have "2 ^ m < rhe x + 1" unfolding of_nat_less_iff .
  then show ?thesis by simp
qed

lemma fround_sig_bounds:
  assumes "0 \<le> t"
  shows "rhe (t / 2 ^ fexp t) \<le> 2 ^ 53"
    and "0 < fexp t \<Longrightarrow> 2 ^ 52 \<le> rhe (t / 2 ^ fexp t)"
proof -
  have "t < 2 ^ 53 * 2 ^ fexp t" using fexp_upper [of t] by (simp add: power_add)
  then have "t / 2 ^ fexp t < 2 ^ 53" by (simp add: divide_less_eq)
  moreover have "0 \<le> t / 2 ^ fexp t" using assms by simp
  ultimately show "rhe (t / 2 ^ fexp t) \<le> 2 ^ 53" by (rule rhe_le_pow [rotated])
  assume "0 < fexp t"
  then have "2 ^ 52 * 2 ^ fexp t \<le> t" using fexp_lower [of t] by (simp add: power_add)
  then have "2 ^ 52 \<le> t / 2 ^ fexp t" by (simp add: le_divide_eq)
  then show "2 ^ 52 \<le> rhe (t / 2 ^ fexp t)" by (rule rhe_ge_pow)
qed

lemma fround_finite:
  assumes r: "0 \<le> r"
    and k: "fexp (r * 2 ^ emin) * 2 ^ 52 + rhe (r * 2 ^ emin / 2 ^ fexp (r * 2 ^ emin)) < 2047 * 2 ^ 52"
  shows "ulps (fround s r) = rhe (r * 2 ^ emin / 2 ^ fexp (r * 2 ^ emin)) * 2 ^ fexp (r * 2 ^ emin)"
    and "isFinite (fround s r)"
    and "sign (fround s r) = s"
proof -
  have t: "0 \<le> r * 2 ^ emin" using r by simp
  note b = fround_sig_bounds [OF t]
  show "ulps (fround s r) = rhe (r * 2 ^ emin / 2 ^ fexp (r * 2 ^ emin)) * 2 ^ fexp (r * 2 ^ emin)"
    unfolding fround_def Let_def by (rule encode_ulps(1) [OF b k])
  show "isFinite (fround s r)"
    unfolding fround_def Let_def by (rule encode_ulps(2) [OF b k])
  show "sign (fround s r) = s"
    unfolding fround_def Let_def by (rule encode_ulps(3) [OF b k])
qed

lemma fround_bound:
  assumes r: "0 \<le> r" and u: "r * 2 ^ emin < 2 ^ (53 + J)" and J: "J \<le> 2044"
  shows "isFinite (fround s r)"
    and "sign (fround s r) = s"
    and "\<bar>real (ulps (fround s r)) - r * 2 ^ emin\<bar> \<le> 2 ^ J / 2"
proof -
  define t where "t = r * 2 ^ emin"
  define j where "j = fexp t"
  define n where "n = rhe (t / 2 ^ j)"
  have t: "0 \<le> t" using r by (simp add: t_def)
  have jJ: "j \<le> J"
  proof (cases "0 < j")
    case True
    then have "(2::real) ^ (52 + j) \<le> t" unfolding j_def by (rule fexp_lower)
    also have "t < 2 ^ (53 + J)" using u by (simp add: t_def)
    finally have "52 + j < 53 + J" by simp
    then show ?thesis by simp
  qed simp
  have n53: "n \<le> 2 ^ 53" unfolding n_def j_def by (rule fround_sig_bounds(1) [OF t])
  have "j * 2 ^ 52 + n \<le> 2044 * 2 ^ 52 + 2 ^ 53" 
    using jJ J n53 by (intro add_mono mult_right_mono) auto
  then have k: "j * 2 ^ 52 + n < 2047 * 2 ^ 52" by simp
  note f = fround_finite [OF r, of s, folded t_def, folded j_def, folded n_def, OF k]
  show "isFinite (fround s r)" by (rule f(2))
  show "sign (fround s r) = s" by (rule f(3))
  have "\<bar>real n - t / 2 ^ j\<bar> \<le> 1 / 2" unfolding n_def by (rule rhe_err) (use t in simp)
  then have "\<bar>real n - t / 2 ^ j\<bar> * 2 ^ j \<le> 1 / 2 * 2 ^ j"
    by (rule mult_right_mono) simp
  moreover have "real n * 2 ^ j - t = (real n - t / 2 ^ j) * 2 ^ j"
    by (simp add: field_simps)
  ultimately have "\<bar>real n * 2 ^ j - t\<bar> \<le> 2 ^ j / 2"
    by (simp add: abs_mult)
  also have "(2::real) ^ j / 2 \<le> 2 ^ J / 2" using jJ by simp
  finally show "\<bar>real (ulps (fround s r)) - r * 2 ^ emin\<bar> \<le> 2 ^ J / 2"
    unfolding f(1) t_def by simp
qed

lemma fround_eval:
  assumes "j = 0 \<and> r * 2 ^ emin < 2 ^ 53 \<or> 
           2 ^ (52 + j) \<le> r * 2 ^ emin \<and> r * 2 ^ emin < 2 ^ (53 + j)"
  shows "fround s r = encode s (j * 2 ^ 52 + rhe (r * 2 ^ emin / 2 ^ j))"
proof -
  have "fexp (r * 2 ^ emin) = j" 
    using assms fexp_small [of "r * 2 ^ emin"] fexp_eq [of j "r * 2 ^ emin"] by auto
  then show ?thesis by (simp add: fround_def)
qed


lemma ulps_bounds:
  assumes "isFinite d"
  shows "expo d = 0 \<Longrightarrow> ulps d < 2 ^ 52"
    and "expo d \<noteq> 0 \<Longrightarrow> 2 ^ (52 + (unat (expo d) - 1)) \<le> ulps d"
    and "expo d \<noteq> 0 \<Longrightarrow> ulps d < 2 ^ (53 + (unat (expo d) - 1))"
proof -
  have f: "unat (mant d) < 2 ^ 52" using unsigned_less [of "mant d"] by simp
  show "expo d = 0 \<Longrightarrow> ulps d < 2 ^ 52" using f by (simp add: ulps_def)
  show "expo d \<noteq> 0 \<Longrightarrow> 2 ^ (52 + (unat (expo d) - 1)) \<le> ulps d"
    by (simp add: ulps_def power_add)
  assume "expo d \<noteq> 0"
  then have "ulps d = (2 ^ 52 + unat (mant d)) * 2 ^ (unat (expo d) - 1)"
    by (simp add: ulps_def)
  also have "\<dots> < (2 ^ 52 + 2 ^ 52) * 2 ^ (unat (expo d) - 1)"
    using f by (intro mult_strict_right_mono add_strict_left_mono) auto
  also have "\<dots> = 2 ^ (53 + (unat (expo d) - 1))" by (simp add: power_add)
  finally show "ulps d < 2 ^ (53 + (unat (expo d) - 1))" .
qed

lemma unat_expo_bounds:
  assumes "isFinite d" "expo d \<noteq> 0"
  shows "1 \<le> unat (expo d)" "unat (expo d) \<le> 2046"
proof -
  show "1 \<le> unat (expo d)" using assms(2) by (simp add: unat_gt_0 Suc_leI)
  have "unat (expo d) < 2 ^ 11" using unsigned_less [of "expo d"] by simp
  moreover have "unat (expo d) \<noteq> 2047"
  proof
    assume "unat (expo d) = 2047"
    then have "of_nat (unat (expo d)) = (of_nat 2047 :: 11 word)" by simp
    then have "expo d = 2047" by simp
    then show False using assms(1) by (simp add: isFinite_def)
  qed
  ultimately show "unat (expo d) \<le> 2046" by simp
qed

lemma fround_repr:
  assumes "isFinite d"
  shows "fround (sign d) (absval d) = d"
proof -
  have t: "absval d * 2 ^ emin = real (ulps d)" by (simp add: absval_def)
  show ?thesis
  proof (cases "expo d = 0")
    case True
    have u: "ulps d < 2 ^ 52" using ulps_bounds(1) [OF assms True] .
    then have "ulps d < 2 ^ 53" by simp
    then have "real (ulps d) < 2 ^ 53" 
      by (simp only: of_nat_less_numeral_power_cancel_iff)
    then have "fround (sign d) (absval d) = encode (sign d) (0 * 2 ^ 52 + rhe (real (ulps d) / 2 ^ 0))"
      by (subst fround_eval [where j = 0]) (simp_all add: t)
    also have "\<dots> = encode (sign d) (ulps d)" by (simp add: rhe_of_nat)
    also have "\<dots> = Double (sign d) (of_nat (ulps d div 2 ^ 52)) (of_nat (ulps d mod 2 ^ 52))"
      using u by (simp add: encode_def)
    also have "\<dots> = Double (sign d) 0 (of_nat (ulps d))" using u by simp
    also have "\<dots> = d" using True by (cases d) (simp add: ulps_def)
    finally show ?thesis .
  next
    case False
    define j where "j = unat (expo d) - 1"
    define P :: nat where "P = 2 ^ 52"
    have P: "0 < P" by (simp add: P_def)
    have e: "unat (expo d) = j + 1" "j \<le> 2045" 
      using unat_expo_bounds [OF assms False] by (auto simp: j_def)
    have f: "unat (mant d) < P" using unsigned_less [of "mant d"] by (simp add: P_def)
    have ud: "ulps d = (P + unat (mant d)) * 2 ^ j" using False by (simp add: ulps_def j_def P_def)
    have "2 ^ (52 + j) \<le> ulps d" "ulps d < 2 ^ (53 + j)" 
      using ulps_bounds(2,3) [OF assms False] by (auto simp: j_def)
    then have "2 ^ (52 + j) \<le> real (ulps d)" "real (ulps d) < 2 ^ (53 + j)"
      by (simp_all only: of_nat_less_numeral_power_cancel_iff numeral_power_le_of_nat_cancel_iff)
    then have "fround (sign d) (absval d) = encode (sign d) (j * 2 ^ 52 + rhe (real (ulps d) / 2 ^ j))"
      by (subst fround_eval [where j = j]) (simp_all add: t)
    also have "real (ulps d) / 2 ^ j = real (P + unat (mant d))" by (simp add: ud)
    also have "rhe \<dots> = P + unat (mant d)" by (rule rhe_of_nat)
    also have "j * 2 ^ 52 + (P + unat (mant d)) = (j + 1) * P + unat (mant d)" by (simp add: P_def)
    also have "encode (sign d) \<dots> = Double (sign d) (of_nat (((j + 1) * P + unat (mant d)) div P)) 
        (of_nat (((j + 1) * P + unat (mant d)) mod P))"
    proof -
      have "(j + 1) * P + unat (mant d) < (j + 1) * P + P" using f by simp
      also have "\<dots> = (j + 2) * P" by (simp add: algebra_simps)
      also have "\<dots> \<le> 2047 * P" using e(2) by (intro mult_right_mono) auto
      finally show ?thesis by (simp add: encode_def P_def)
    qed
    also have "\<dots> = Double (sign d) (of_nat (j + 1)) (of_nat (unat (mant d)))"
      unfolding divmod_shift [OF f] ..
    also have "\<dots> = d" using e(1) [symmetric] by (cases d) simp
    finally show ?thesis .
  qed
qed

subsection \<open>Classification and value of a double\<close>

lemma double_cases3: "isNaN d \<or> isInf d \<or> isFinite d"
  by (auto simp: isNaN_def isInf_def isFinite_def)

lemma isFinite_not_special: "isFinite d \<Longrightarrow> \<not> isNaN d \<and> \<not> isInf d"
  by (auto simp: isNaN_def isInf_def isFinite_def)

lemma not_special_isFinite: "\<not> isNaN d \<Longrightarrow> \<not> isInf d \<Longrightarrow> isFinite d"
  by (auto simp: isNaN_def isInf_def isFinite_def)

lemma isInf_eq: "isInf d \<Longrightarrow> d = finf (sign d)"
  by (cases d) (simp add: isInf_def finf_def)

lemma isInf_finf: "isInf (finf s)" "\<not> isNaN (finf s)" "\<not> isZero (finf s)" "sign (finf s) = s"
  "\<not> isFinite (finf s)"
  by (simp_all add: isInf_def isNaN_def isZero_def finf_def isFinite_def)

lemma isNaN_fnan: "isNaN fnan" "\<not> isInf fnan" "\<not> isFinite fnan"
  by (simp_all add: isInf_def isNaN_def fnan_def isFinite_def)

lemma fzero_simps: "isFinite (fzero s)" "isZero (fzero s)" "sign (fzero s) = s"
  "\<not> isNaN (fzero s)" "\<not> isInf (fzero s)" "ulps (fzero s) = 0" "absval (fzero s) = 0"
  "valof (fzero s) = 0"
  by (simp_all add: isInf_def isNaN_def isZero_def fzero_def isFinite_def ulps_def absval_def 
      valof_def)

lemma isZero_eq: "isZero d \<Longrightarrow> d = fzero (sign d)"
  by (cases d) (simp add: isZero_def fzero_def)

lemma isZero_isFinite: "isZero d \<Longrightarrow> isFinite d"
  by (simp add: isZero_def isFinite_def)

lemma ulps_eq_0: "ulps d = 0 \<longleftrightarrow> isZero d"
  by (auto simp: ulps_def isZero_def unat_eq_0)

lemma absval_nonneg: "0 \<le> absval d"
  by (simp add: absval_def)

lemma absval_eq_0: "absval d = 0 \<longleftrightarrow> isZero d"
  by (simp add: absval_def ulps_eq_0)

lemma valof_eq_0: "valof d = 0 \<longleftrightarrow> isZero d"
  by (simp add: valof_def absval_eq_0)

lemma abs_valof: "\<bar>valof d\<bar> = absval d"
  using absval_nonneg [of d] by (simp add: valof_def)

lemma valof_neg_iff: "valof d < 0 \<longleftrightarrow> sign d \<and> \<not> isZero d"
  using absval_nonneg [of d] absval_eq_0 [of d] by (auto simp: valof_def)

lemma fround_zero: "fround s 0 = fzero s"
proof -
  have "fexp 0 = 0" by (rule fexp_small) simp
  then show ?thesis by (simp add: fround_def encode_def rhe_def fzero_def)
qed

lemma fround_valof: 
  assumes "isFinite d" "\<not> isZero d"
  shows "fround (valof d < 0) \<bar>valof d\<bar> = d"
  using fround_repr [OF assms(1)] assms(2) by (simp add: abs_valof valof_neg_iff)

lemma fround_zero_sign:
  assumes "isZero d"
  shows "fround s (absval d) = fzero s"
  using assms by (simp add: absval_eq_0 [THEN iffD2] fround_zero)

subsection \<open>Literals\<close>

lemma lit_eqI: 
  assumes "isFinite d" "valof d = r" "\<not> isZero d"
  shows "lit r = d"
  using fround_valof [OF assms(1,3)] assms(2) by (simp add: lit_def)

lemma lit_0: "lit 0 = fzero False"
  by (simp add: lit_def fround_zero)

lemma lit_1: "lit 1 = Double False 1023 0"
  by (rule lit_eqI) (simp_all add: isFinite_def valof_def absval_def ulps_def emin_def isZero_def)

lemma lit_2: "lit 2 = Double False 1024 0"
  by (rule lit_eqI) (simp_all add: isFinite_def valof_def absval_def ulps_def emin_def isZero_def)

lemma lit_1_simps: "isFinite (lit 1)" "\<not> isZero (lit 1)" "\<not> sign (lit 1)" "absval (lit 1) = 1"
  "valof (lit 1) = 1" "\<not> isNaN (lit 1)" "\<not> isInf (lit 1)"
  by (simp_all add: lit_1 isFinite_def valof_def absval_def ulps_def emin_def isZero_def 
      isNaN_def isInf_def)

lemma lit_2_simps: "isFinite (lit 2)" "\<not> isZero (lit 2)" "\<not> sign (lit 2)" "absval (lit 2) = 2"
  "valof (lit 2) = 2" "\<not> isNaN (lit 2)" "\<not> isInf (lit 2)"
  by (simp_all add: lit_2 isFinite_def valof_def absval_def ulps_def emin_def isZero_def 
      isNaN_def isInf_def)

subsection \<open>Comparison\<close>

lemma feq_refl_iff: "feq a a \<longleftrightarrow> \<not> isNaN a"
  by (simp add: feq_def)

lemma feq_zeros: "feq (fzero s) (fzero s')"
  by (simp add: feq_def fzero_simps)

subsection \<open>Doubling\<close>

lemma fadd_self: "fadd a a = fmul a (lit 2)"
proof -
  consider (nan) "isNaN a" | (inf) "isInf a" | (fin) "isFinite a"
    using double_cases3 by blast
  then show ?thesis
  proof cases
    case nan
    then show ?thesis by (simp add: fadd_def fmul_def)
  next
    case inf
    then have "\<not> isNaN a" "\<not> isZero a" by (auto simp: isNaN_def isInf_def isZero_def)
    then show ?thesis using inf isInf_eq [OF inf]
      by (simp add: fadd_def fmul_def lit_2_simps)
  next
    case fin
    note ns = isFinite_not_special [OF fin]
    show ?thesis
    proof (cases "isZero a")
      case True
      then show ?thesis using ns
        by (simp add: fadd_def fmul_def lit_2_simps valof_eq_0 [THEN iffD2] 
            absval_eq_0 [THEN iffD2] fround_zero)
    next
      case False
      then have nz: "valof a \<noteq> 0" by (simp add: valof_eq_0)
      have "\<bar>valof a + valof a\<bar> = absval a * 2" using abs_valof [of a] by simp
      moreover have "valof a + valof a < 0 \<longleftrightarrow> sign a" 
        using valof_neg_iff [of a] False by auto
      ultimately show ?thesis using ns nz
        by (simp add: fadd_def fmul_def lit_2_simps Let_def)
    qed
  qed
qed

subsection \<open>The heap after each operation\<close>

lemma newVector3_simps:
  "fst (newVector3 h x y z) = nextRef h"
  "vector3s (snd (newVector3 h x y z)) = 
     (vector3s h)(nextRef h := \<lparr>vec_x = x, vec_y = y, vec_z = z\<rparr>)"
  "matrices (snd (newVector3 h x y z)) = matrices h"
  "quaternions (snd (newVector3 h x y z)) = quaternions h"
  "nextRef (snd (newVector3 h x y z)) = Suc (nextRef h)"
  "MathTmp_Vector3 (snd (newVector3 h x y z)) = MathTmp_Vector3 h"
  "MathTmp_Quaternion (snd (newVector3 h x y z)) = MathTmp_Quaternion h"
  by (simp_all add: newVector3_def)

lemma copyFromFloats_simps:
  "fst (copyFromFloats h r x y z) = r"
  "vector3s (snd (copyFromFloats h r x y z)) = 
     (vector3s h)(r := \<lparr>vec_x = x, vec_y = y, vec_z = z\<rparr>)"
  "matrices (snd (copyFromFloats h r x y z)) = matrices h"
  "quaternions (snd (copyFromFloats h r x y z)) = quaternions h"
  "nextRef (snd (copyFromFloats h r x y z)) = nextRef h"
  "MathTmp_Vector3 (snd (copyFromFloats h r x y z)) = MathTmp_Vector3 h"
  "MathTmp_Quaternion (snd (copyFromFloats h r x y z)) = MathTmp_Quaternion h"
  by (simp_all add: copyFromFloats_def)

lemma pooledHeap_simps:
  "vector3s pooledHeap r = \<lparr>vec_x = fzero False, vec_y = fzero False, vec_z = fzero False\<rparr>"
  "nextRef pooledHeap = 6"
  "MathTmp_Vector3 pooledHeap = [0, 1, 2, 3, 4, 5]"
  "MathTmp_Quaternion pooledHeap = [0, 1, 2]"
  "matrices pooledHeap r = \<lparr>mat_m = IdentityValues\<rparr>"
  by (simp_all add: pooledHeap_def)

lemma heapWith_simps:
  "vector3s (heapWith x y z) 6 = \<lparr>vec_x = x, vec_y = y, vec_z = z\<rparr>"
  "nextRef (heapWith x y z) = 7"
  "MathTmp_Vector3 (heapWith x y z) = [0, 1, 2, 3, 4, 5]"
  "MathTmp_Quaternion (heapWith x y z) = [0, 1, 2]"
  "matrices (heapWith x y z) r = \<lparr>mat_m = IdentityValues\<rparr>"
  by (simp_all add: heapWith_def newVector3_simps pooledHeap_simps)

lemma heapWith2_simps:
  "vector3s (heapWith2 x y z x' y' z') 6 = \<lparr>vec_x = x, vec_y = y, vec_z = z\<rparr>"
  "vector3s (heapWith2 x y z x' y' z') 7 = \<lparr>vec_x = x', vec_y = y', vec_z = z'\<rparr>"
  "nextRef (heapWith2 x y z x' y' z') = 8"
  "MathTmp_Vector3 (heapWith2 x y z x' y' z') = [0, 1, 2, 3, 4, 5]"
  "MathTmp_Quaternion (heapWith2 x y z x' y' z') = [0, 1, 2]"
  "matrices (heapWith2 x y z x' y' z') r = \<lparr>mat_m = IdentityValues\<rparr>"
  by (simp_all add: heapWith2_def newVector3_simps heapWith_simps)

section \<open>The claims\<close>

text \<open>
  C1.  For every Vector3 \<open>a\<close>, the self-aliased call \<^verbatim>\<open>a.addToRef(a, a)\<close> returns \<open>a\<close>
  and leaves in \<open>a\<close> exactly the vector that \<^verbatim>\<open>a.scale(2)\<close> returns from the same heap:
  each component of \<open>a\<close> doubled.  The operands are read before any field is written.
\<close>

theorem addToRef_self_alias:
  "fst (addToRef h a a a) = a \<and>
   vector3s (snd (addToRef h a a a)) a =
     vector3s (snd (scale h a (lit 2))) (fst (scale h a (lit 2))) \<and>
   vector3s (snd (addToRef h a a a)) a =
     \<lparr>vec_x = fmul (vec_x (vector3s h a)) (lit 2),
      vec_y = fmul (vec_y (vector3s h a)) (lit 2),
      vec_z = fmul (vec_z (vector3s h a)) (lit 2)\<rparr>"
  by (simp add: addToRef_def scale_def Let_def copyFromFloats_simps newVector3_simps fadd_self)

theorem addToRef_self_alias_witness:
  "fst (addToRef (heapWith (lit 1) (lit 2) (fzero True)) 6 6 6) = 6 \<and>
   vector3s (snd (addToRef (heapWith (lit 1) (lit 2) (fzero True)) 6 6 6)) 6 =
     vector3s (snd (scale (heapWith (lit 1) (lit 2) (fzero True)) 6 (lit 2))) 
       (fst (scale (heapWith (lit 1) (lit 2) (fzero True)) 6 (lit 2))) \<and>
   vector3s (snd (addToRef (heapWith (lit 1) (lit 2) (fzero True)) 6 6 6)) 6 =
     \<lparr>vec_x = fmul (vec_x (vector3s (heapWith (lit 1) (lit 2) (fzero True)) 6)) (lit 2),
      vec_y = fmul (vec_y (vector3s (heapWith (lit 1) (lit 2) (fzero True)) 6)) (lit 2),
      vec_z = fmul (vec_z (vector3s (heapWith (lit 1) (lit 2) (fzero True)) 6)) (lit 2)\<rparr>"
  by (rule addToRef_self_alias)

subsection \<open>Arithmetic with zero and one\<close>

lemma fmul_one_right: "isFinite a \<Longrightarrow> fmul a (lit 1) = a"
  using fround_repr [of a] isFinite_not_special [of a]
  by (simp add: fmul_def lit_1_simps)

lemma fmul_one_left: "isFinite a \<Longrightarrow> fmul (lit 1) a = a"
  using fround_repr [of a] isFinite_not_special [of a]
  by (simp add: fmul_def lit_1_simps)

lemma fmul_zero_right: "isFinite a \<Longrightarrow> fmul a (fzero s) = fzero (sign a \<noteq> s)"
  using isFinite_not_special [of a]
  by (simp add: fmul_def fzero_simps fround_zero)

lemma fmul_zero_left: "isFinite a \<Longrightarrow> fmul (fzero s) a = fzero (s \<noteq> sign a)"
  using isFinite_not_special [of a]
  by (simp add: fmul_def fzero_simps fround_zero)

lemma fadd_zero_zero: "fadd (fzero s) (fzero s') = fzero (s \<and> s')"
  by (simp add: fadd_def fzero_simps)

lemma fadd_zero_right: "isFinite a \<Longrightarrow> \<not> isZero a \<Longrightarrow> fadd a (fzero s) = a"
  using fround_valof [of a] isFinite_not_special [of a]
  by (simp add: fadd_def fzero_simps valof_eq_0)

lemma fadd_zero_left: "isFinite a \<Longrightarrow> \<not> isZero a \<Longrightarrow> fadd (fzero s) a = a"
  using fround_valof [of a] isFinite_not_special [of a]
  by (simp add: fadd_def fzero_simps valof_eq_0)

lemma fneg_fzero: "fneg (fzero s) = fzero (\<not> s)"
  by (simp add: fneg_def fzero_def)

lemma fsqrt_zero: "fsqrt (fzero s) = fzero s"
  by (simp add: fsqrt_def fzero_simps)

lemma fsqrt_one: "fsqrt (lit 1) = lit 1"
  by (simp add: fsqrt_def lit_1_simps) (simp add: lit_def)

lemma fdiv_one_one: "fdiv (lit 1) (lit 1) = lit 1"
  by (simp add: fdiv_def lit_1_simps) (simp add: lit_def)

lemma feq_lit_1: "feq (lit 1) (lit 1)"
  by (simp add: feq_refl_iff lit_1_simps)

lemma feq_zero_lit_0: "feq (fzero s) (lit 0)"
  by (simp add: lit_0 feq_zeros)

lemma Vector3_eta: "\<lparr>vec_x = vec_x t, vec_y = vec_y t, vec_z = vec_z t\<rparr> = t"
  by (cases t) simp

lemma length_zero_vector:
  assumes "vector3s h v = \<lparr>vec_x = fzero s1, vec_y = fzero s2, vec_z = fzero s3\<rparr>"
  shows "length_Vector3 h v = fzero False"
  by (simp add: length_Vector3_def assms fmul_zero_left fzero_simps
      fadd_zero_zero fsqrt_zero)

lemma length_unit_x:
  assumes "vector3s h v = \<lparr>vec_x = lit 1, vec_y = fzero s2, vec_z = fzero s3\<rparr>"
  shows "length_Vector3 h v = lit 1"
  by (simp add: length_Vector3_def assms fmul_one_left lit_1_simps fmul_zero_left fzero_simps
      fadd_zero_right fsqrt_one)

text \<open>
  C9.  When the length of \<open>v\<close> is 0 or exactly 1.0, \<^verbatim>\<open>v.normalizeToRef(reference)\<close>
  returns \<open>reference\<close> and the heap in which \<open>reference\<close> holds the components of \<open>v\<close>
  and nothing else has changed: the fast path is a copy, not a skip.
\<close>

theorem normalizeToRef_fast_path_copies:
  assumes "feq (length_Vector3 h v) (lit 0) \<or> feq (length_Vector3 h v) (lit 1)"
  shows "normalizeToRef h v reference =
           (reference, h\<lparr>vector3s := (vector3s h)(reference := vector3s h v)\<rparr>)"
  using assms by (auto simp: normalizeToRef_def copyFromFloats_def Vector3_eta)

theorem normalizeToRef_fast_path_copies_witness:
  "normalizeToRef (heapWith2 (fzero True) (fzero False) (fzero False) (lit 2) (lit 2) (lit 2)) 6 7 =
     (7, heapWith2 (fzero True) (fzero False) (fzero False) (lit 2) (lit 2) (lit 2)
           \<lparr>vector3s := (vector3s (heapWith2 (fzero True) (fzero False) (fzero False) 
              (lit 2) (lit 2) (lit 2)))(7 := \<lparr>vec_x = fzero True, vec_y = fzero False, 
                 vec_z = fzero False\<rparr>)\<rparr>) \<and>
   normalizeToRef (heapWith2 (lit 1) (fzero False) (fzero False) (lit 2) (lit 2) (lit 2)) 6 7 =
     (7, heapWith2 (lit 1) (fzero False) (fzero False) (lit 2) (lit 2) (lit 2)
           \<lparr>vector3s := (vector3s (heapWith2 (lit 1) (fzero False) (fzero False) 
              (lit 2) (lit 2) (lit 2)))(7 := \<lparr>vec_x = lit 1, vec_y = fzero False, 
                 vec_z = fzero False\<rparr>)\<rparr>)"
proof -
  let ?h0 = "heapWith2 (fzero True) (fzero False) (fzero False) (lit 2) (lit 2) (lit 2)"
  let ?h1 = "heapWith2 (lit 1) (fzero False) (fzero False) (lit 2) (lit 2) (lit 2)"
  have l0: "length_Vector3 ?h0 6 = fzero False"
    by (rule length_zero_vector) (simp add: heapWith2_simps)
  have l1: "length_Vector3 ?h1 6 = lit 1"
    by (rule length_unit_x) (simp add: heapWith2_simps)
  have a0: "feq (length_Vector3 ?h0 6) (lit 0) \<or> feq (length_Vector3 ?h0 6) (lit 1)"
    unfolding l0 by (simp add: feq_zero_lit_0)
  have a1: "feq (length_Vector3 ?h1 6) (lit 0) \<or> feq (length_Vector3 ?h1 6) (lit 1)"
    unfolding l1 by (simp add: feq_lit_1)
  show ?thesis
    using normalizeToRef_fast_path_copies [OF a0, of 7] 
      normalizeToRef_fast_path_copies [OF a1, of 7]
    by (simp add: heapWith2_simps)
qed

text \<open>
  C8.  None of the six transform functions writes a matrix: after each of them the store
  of the matrices, hence all sixteen entries of the operand, is what it was before.
\<close>

theorem transforms_leave_matrices:
  "matrices (snd (TransformCoordinates h v t)) = matrices h \<and>
   matrices (TransformCoordinatesToRef h v t r) = matrices h \<and>
   matrices (TransformCoordinatesFromFloatsToRef h x y z t r) = matrices h \<and>
   matrices (snd (TransformNormal h v t)) = matrices h \<and>
   matrices (TransformNormalToRef h v t r) = matrices h \<and>
   matrices (TransformNormalFromFloatsToRef h x y z t r) = matrices h"
proof -
  have c: "matrices (TransformCoordinatesFromFloatsToRef h' x' y' z' t r') = matrices h'"
    for h' x' y' z' r'
    by (simp add: TransformCoordinatesFromFloatsToRef_def Let_def)
  have n: "matrices (TransformNormalFromFloatsToRef h' x' y' z' t r') = matrices h'"
    for h' x' y' z' r'
    by (simp add: TransformNormalFromFloatsToRef_def Let_def)
  show ?thesis
    by (simp add: TransformCoordinates_def TransformCoordinatesToRef_def TransformNormal_def
        TransformNormalToRef_def Zero_def c n split_def Let_def newVector3_simps)
qed

theorem transforms_leave_matrices_witness:
  "mat_m (matrices (snd (TransformCoordinates (heapWith (lit 1) (lit 2) (fzero False)) 6 0)) 0) 
     = IdentityValues \<and>
   mat_m (matrices (TransformCoordinatesToRef (heapWith (lit 1) (lit 2) (fzero False)) 6 0 6) 0) 
     = IdentityValues \<and>
   mat_m (matrices (TransformCoordinatesFromFloatsToRef (heapWith (lit 1) (lit 2) (fzero False)) 
     (lit 1) (lit 1) (lit 1) 0 6) 0) = IdentityValues \<and>
   mat_m (matrices (snd (TransformNormal (heapWith (lit 1) (lit 2) (fzero False)) 6 0)) 0) 
     = IdentityValues \<and>
   mat_m (matrices (TransformNormalToRef (heapWith (lit 1) (lit 2) (fzero False)) 6 0 6) 0) 
     = IdentityValues \<and>
   mat_m (matrices (TransformNormalFromFloatsToRef (heapWith (lit 1) (lit 2) (fzero False)) 
     (lit 1) (lit 1) (lit 1) 0 6) 0) = IdentityValues"
  using transforms_leave_matrices [of "heapWith (lit 1) (lit 2) (fzero False)" 6 0 6 "lit 1" 
      "lit 1" "lit 1"]
  by (simp add: heapWith_simps)

subsection \<open>Finite operands: the exact result, rounded\<close>

lemma fneg_simps:
  "isFinite (fneg a) = isFinite a" "isNaN (fneg a) = isNaN a" "isInf (fneg a) = isInf a"
  "isZero (fneg a) = isZero a" "sign (fneg a) = (\<not> sign a)" "absval (fneg a) = absval a"
  "valof (fneg a) = - valof a"
  by (simp_all add: fneg_def isFinite_def isNaN_def isInf_def isZero_def absval_def ulps_def 
      valof_def)

lemma fadd_finite:
  assumes "isFinite a" "isFinite b" "valof a + valof b \<noteq> 0"
  shows "fadd a b = lit (valof a + valof b)"
  using assms isFinite_not_special [of a] isFinite_not_special [of b]
  by (simp add: fadd_def lit_def Let_def)

lemma fadd_cancel:
  assumes "isFinite a" "isFinite b" "valof a + valof b = 0"
  shows "fadd a b = fzero (sign a \<and> sign b)"
  using assms isFinite_not_special [of a] isFinite_not_special [of b]
  by (simp add: fadd_def)

lemma valof_sign_cases: 
  assumes "\<not> isZero d" 
  shows "sign d \<and> valof d < 0 \<or> \<not> sign d \<and> 0 < valof d"
  using assms absval_nonneg [of d] absval_eq_0 [of d] by (auto simp: valof_def)


lemma fdiv_finite:
  assumes "isFinite a" "isFinite b" "\<not> isZero a" "\<not> isZero b"
  shows "fdiv a b = lit (valof a / valof b)"
proof -
  have "\<bar>valof a / valof b\<bar> = absval a / absval b"
    by (simp add: abs_valof)
  moreover have "valof a / valof b < 0 \<longleftrightarrow> sign a \<noteq> sign b"
    using valof_sign_cases [OF assms(3)] valof_sign_cases [OF assms(4)]
    by (auto simp: divide_less_0_iff)
  ultimately show ?thesis
    using assms isFinite_not_special [of a] isFinite_not_special [of b]
    by (simp add: fdiv_def lit_def)
qed

lemma fadd_zero_right_gen: 
  "isFinite a \<Longrightarrow> fadd a (fzero s) = (if isZero a then fzero (sign a \<and> s) else a)"
  using isZero_eq [of a] fadd_zero_zero [of "sign a" s] by (auto simp: fadd_zero_right)

lemma fadd_zero_left_gen: 
  "isFinite a \<Longrightarrow> fadd (fzero s) a = (if isZero a then fzero (s \<and> sign a) else a)"
  using isZero_eq [of a] fadd_zero_zero [of s "sign a"] by (auto simp: fadd_zero_left)

subsection \<open>Some literals\<close>

lemma lit_5: "lit 5 = Double False 1025 (2 ^ 50)"
  by (rule lit_eqI) (simp_all add: isFinite_def valof_def absval_def ulps_def emin_def isZero_def)

lemma lit_10: "lit 10 = Double False 1026 (2 ^ 50)"
  by (rule lit_eqI) (simp_all add: isFinite_def valof_def absval_def ulps_def emin_def isZero_def)


lemma lit_minus_10: "lit (- 10) = Double True 1026 (2 ^ 50)"
  by (rule lit_eqI) (simp_all add: isFinite_def valof_def absval_def ulps_def emin_def isZero_def)

lemma lit_5_simps: "isFinite (lit 5)" "\<not> isZero (lit 5)" "valof (lit 5) = 5"
  by (simp_all add: lit_5 isFinite_def valof_def absval_def ulps_def emin_def isZero_def)

lemma lit_10_simps: "isFinite (lit 10)" "\<not> isZero (lit 10)" "valof (lit 10) = 10"
  by (simp_all add: lit_10 isFinite_def valof_def absval_def ulps_def emin_def isZero_def)

lemma lit_minus_10_simps: "isFinite (lit (- 10))" "\<not> isZero (lit (- 10))" 
  "valof (lit (- 10)) = - 10"
  by (simp_all add: lit_minus_10 isFinite_def valof_def absval_def ulps_def emin_def isZero_def)

subsection \<open>Division when the operands of the subtraction are equal\<close>

lemma fsub_self_finite: 
  assumes "isFinite a" "isFinite b" "valof a = valof b"
  shows "isZero (fsub a b)"
  using assms fadd_cancel [of a "fneg b"] by (simp add: fsub_def fneg_simps fzero_simps)

lemma fdiv_by_zero:
  assumes "isZero b"
  shows "isNaN (fdiv a b) \<or> isInf (fdiv a b)"
proof -
  have b: "\<not> isNaN b" "\<not> isInf b" using assms by (auto simp: isZero_def isNaN_def isInf_def)
  show ?thesis using b assms by (simp add: fdiv_def isNaN_fnan isInf_finf)
qed

lemma fadd_nan: "isNaN a \<or> isNaN b \<Longrightarrow> fadd a b = fnan"
  by (simp add: fadd_def)

lemma fdiv_nan: "isNaN a \<or> isNaN b \<Longrightarrow> fdiv a b = fnan"
  by (simp add: fdiv_def)

lemma fsub_inf_self:
  assumes "isInf a" "b = a"
  shows "isNaN (fsub a b)"
proof -
  have "\<not> isNaN a" using assms by (auto simp: isNaN_def isInf_def)
  then show ?thesis using assms 
    by (simp add: fsub_def fadd_def fneg_simps isNaN_fnan)
qed

lemma fdiv_equal_operands:
  assumes "feq d0 d1"
  shows "isNaN (fdiv d0 (fsub d0 d1)) \<or> isInf (fdiv d0 (fsub d0 d1))"
proof (cases "isInf d0 \<or> isInf d1")
  case True
  then have "d0 = d1" "isInf d0" using assms by (auto simp: feq_def)
  then have "isNaN (fsub d0 d1)" using fsub_inf_self by blast
  then show ?thesis by (simp add: fdiv_nan isNaN_fnan)
next
  case False
  then have "isFinite d0" "isFinite d1" "valof d0 = valof d1"
    using assms by (auto simp: feq_def not_special_isFinite)
  then have "isZero (fsub d0 d1)" by (rule fsub_self_finite)
  then show ?thesis by (rule fdiv_by_zero)
qed

text \<open>
  C4.  \<^verbatim>\<open>GetClipFactor\<close> returns \<open>d0 / (d0 - d1)\<close> with \<open>di = Dot(vi, axis) - size\<close>.
  Nothing guards the division: when \<open>d0 === d1\<close> the result is a NaN or an infinity.
  For the points (0,0,0) and (0,0,10), the axis (0,0,1) and size 5 the result is 0.5.
\<close>

theorem GetClipFactor_value:
  "GetClipFactor h v0 v1 axis sz =
     fdiv (fsub (Dot h v0 axis) sz) 
          (fsub (fsub (Dot h v0 axis) sz) (fsub (Dot h v1 axis) sz)) \<and>
   (feq (fsub (Dot h v0 axis) sz) (fsub (Dot h v1 axis) sz) \<longrightarrow>
      isNaN (GetClipFactor h v0 v1 axis sz) \<or> isInf (GetClipFactor h v0 v1 axis sz)) \<and>
   (vector3s h v0 = \<lparr>vec_x = lit 0, vec_y = lit 0, vec_z = lit 0\<rparr> \<and>
    vector3s h v1 = \<lparr>vec_x = lit 0, vec_y = lit 0, vec_z = lit 10\<rparr> \<and>
    vector3s h axis = \<lparr>vec_x = lit 0, vec_y = lit 0, vec_z = lit 1\<rparr> \<longrightarrow>
      GetClipFactor h v0 v1 axis (lit 5) = lit (1 / 2))"
proof (intro conjI impI)
  show "GetClipFactor h v0 v1 axis sz =
     fdiv (fsub (Dot h v0 axis) sz) 
          (fsub (fsub (Dot h v0 axis) sz) (fsub (Dot h v1 axis) sz))"
    by (simp add: GetClipFactor_def Let_def)
  assume "feq (fsub (Dot h v0 axis) sz) (fsub (Dot h v1 axis) sz)"
  then show "isNaN (GetClipFactor h v0 v1 axis sz) \<or> isInf (GetClipFactor h v0 v1 axis sz)"
    unfolding GetClipFactor_def Let_def by (rule fdiv_equal_operands)
next
  assume a: "vector3s h v0 = \<lparr>vec_x = lit 0, vec_y = lit 0, vec_z = lit 0\<rparr> \<and>
    vector3s h v1 = \<lparr>vec_x = lit 0, vec_y = lit 0, vec_z = lit 10\<rparr> \<and>
    vector3s h axis = \<lparr>vec_x = lit 0, vec_y = lit 0, vec_z = lit 1\<rparr>"
  have d0: "Dot h v0 axis = fzero False"
    using a by (simp add: Dot_def lit_0 fmul_zero_left fzero_simps lit_1_simps fadd_zero_zero)
  have d1: "Dot h v1 axis = lit 10"
    using a by (simp add: Dot_def lit_0 fmul_zero_left fzero_simps fmul_one_right lit_10_simps 
        fadd_zero_zero fadd_zero_left)
  have s0: "fsub (fzero False) (lit 5) = fneg (lit 5)"
    by (simp add: fsub_def fadd_zero_left fneg_simps lit_5_simps)
  have s1: "fsub (lit 10) (lit 5) = lit 5"
    using fadd_finite [of "lit 10" "fneg (lit 5)"]
    by (simp add: fsub_def fneg_simps lit_5_simps lit_10_simps)
  have s2: "fsub (fneg (lit 5)) (lit 5) = lit (- 10)"
    using fadd_finite [of "fneg (lit 5)" "fneg (lit 5)"]
    by (simp add: fsub_def fneg_simps lit_5_simps)
  have "fdiv (fneg (lit 5)) (lit (- 10)) = lit (1 / 2)"
    using fdiv_finite [of "fneg (lit 5)" "lit (- 10)"]
    by (simp add: fneg_simps lit_5_simps lit_minus_10_simps)
  then show "GetClipFactor h v0 v1 axis (lit 5) = lit (1 / 2)"
    by (simp add: GetClipFactor_def d0 d1 s0 s1 s2)
qed

lemma Epsilon_bits: "Epsilon = Double False 1003 218766855499149"
proof -
  have "fround False (1 / 1000000) = 
      encode False (1002 * 2 ^ 52 + rhe (1 / 1000000 * 2 ^ emin / 2 ^ 1002))"
    by (rule fround_eval) (simp add: emin_def)
  also have "(1 / 1000000 * 2 ^ emin / 2 ^ 1002 :: real) = 4722366482869645 + 213696 / 1000000"
    by (simp add: emin_def)
  also have "rhe \<dots> = 4722366482869645"
    by (simp add: rhe_def)
  also have "encode False (1002 * 2 ^ 52 + 4722366482869645) = Double False 1003 218766855499149"
    by (simp add: encode_def)
  finally show ?thesis by (simp add: Epsilon_def lit_def)
qed

lemma Epsilon_simps: "isFinite Epsilon" "\<not> sign Epsilon" 
  "valof Epsilon = 4722366482869645 / 2 ^ 72"
  by (simp_all add: Epsilon_bits isFinite_def valof_def absval_def ulps_def emin_def)

subsection \<open>Heap operations by values\<close>

lemma heapWith3_simps:
  "vector3s (heapWith3 a b c) 6 = a"
  "vector3s (heapWith3 a b c) 7 = b"
  "vector3s (heapWith3 a b c) 8 = c"
  "nextRef (heapWith3 a b c) = 9"
  "MathTmp_Vector3 (heapWith3 a b c) = [0, 1, 2, 3, 4, 5]"
  "MathTmp_Quaternion (heapWith3 a b c) = [0, 1, 2]"
  "matrices (heapWith3 a b c) r = \<lparr>mat_m = IdentityValues\<rparr>"
  by (simp_all add: heapWith3_def newVector3_simps pooledHeap_simps Vector3_eta)

lemma Dot_dotV: "Dot h l r = dotV (vector3s h l) (vector3s h r)"
  by (simp add: Dot_def dotV_def Let_def)

lemma length_lengthV: "length_Vector3 h v = lengthV (vector3s h v)"
  by (simp add: length_Vector3_def lengthV_def Let_def)




lemma Vector3_update_all: 
  "t\<lparr>vec_x := a, vec_y := b, vec_z := c\<rparr> = \<lparr>vec_x = a, vec_y = b, vec_z = c\<rparr>"
  by (cases t) simp

lemma scaleInPlace_scaledV: 
  "scaleInPlace h v s = (v, h\<lparr>vector3s := (vector3s h)(v := scaledV (vector3s h v) s)\<rparr>)"
  by (simp add: scaleInPlace_def scaledV_def Let_def Vector3_update_all)

lemma normalize_normalizedV:
  "normalize h v = (v, h\<lparr>vector3s := (vector3s h)(v := normalizedV (vector3s h v))\<rparr>)"
  by (simp add: normalize_def normalizeFromLength_def normalizedV_def length_lengthV 
      scaleInPlace_scaledV)

lemma slot_nth: "i < length a \<Longrightarrow> slot a i = Some (a ! i)"
  by (simp add: slot_def)


lemma sign_encode: "sign (encode s k) = s"
  by (simp add: encode_def finf_def)

lemma sign_fround: "sign (fround s r) = s"
  by (simp add: fround_def Let_def sign_encode)

lemma fsub_zero_zero: "fsub (fzero s) (fzero s') = fzero (s \<and> \<not> s')"
  by (simp add: fsub_def fneg_fzero fadd_zero_zero)

lemma fsub_zero_right: "isFinite a \<Longrightarrow> \<not> isZero a \<Longrightarrow> fsub a (fzero s) = a"
  by (simp add: fsub_def fneg_fzero fadd_zero_right)

lemma fsub_zero_left: "isFinite a \<Longrightarrow> \<not> isZero a \<Longrightarrow> fsub (fzero s) a = fneg a"
  by (simp add: fsub_def fadd_zero_left fneg_simps)



lemmas unit_arith =
  lit_0 fmul_zero_left fmul_zero_right fmul_one_left fmul_one_right fadd_zero_zero
  fadd_zero_left fadd_zero_right fsub_zero_zero fsub_zero_left fsub_zero_right fneg_simps
  lit_1_simps fzero_simps fsqrt_one






lemma fround_abs_err:
  assumes "0 \<le> r" "r * 2 ^ emin < 2 ^ (53 + J)" "J \<le> 2044"
  shows "\<bar>absval (fround s r) - r\<bar> \<le> 2 ^ J / 2 / 2 ^ emin"
proof -
  have "\<bar>real (ulps (fround s r)) - r * 2 ^ emin\<bar> \<le> 2 ^ J / 2"
    by (rule fround_bound(3) [OF assms])
  then have "\<bar>real (ulps (fround s r)) - r * 2 ^ emin\<bar> / 2 ^ emin \<le> 2 ^ J / 2 / 2 ^ emin"
    by (rule divide_right_mono) simp
  moreover have "(real (ulps (fround s r)) - r * 2 ^ emin) / 2 ^ emin = absval (fround s r) - r"
    by (simp add: absval_def diff_divide_distrib)
  then have "\<bar>real (ulps (fround s r)) - r * 2 ^ emin\<bar> / 2 ^ emin = 
      \<bar>absval (fround s r) - r\<bar>"
    by (metis abs_divide abs_numeral abs_power2 power_abs)
  ultimately show ?thesis by simp
qed



theorem GetClipFactor_value_witness:
  "GetClipFactor (heapWith3 \<lparr>vec_x = lit 0, vec_y = lit 0, vec_z = lit 0\<rparr> 
                            \<lparr>vec_x = lit 0, vec_y = lit 0, vec_z = lit 10\<rparr>
                            \<lparr>vec_x = lit 0, vec_y = lit 0, vec_z = lit 1\<rparr>) 6 7 8 (lit 5) 
     = lit (1 / 2) \<and>
   (isNaN (GetClipFactor (heapWith3 \<lparr>vec_x = lit 0, vec_y = lit 0, vec_z = lit 0\<rparr> 
                            \<lparr>vec_x = lit 0, vec_y = lit 0, vec_z = lit 10\<rparr>
                            \<lparr>vec_x = lit 0, vec_y = lit 0, vec_z = lit 1\<rparr>) 6 6 8 (lit 5)) \<or>
    isInf (GetClipFactor (heapWith3 \<lparr>vec_x = lit 0, vec_y = lit 0, vec_z = lit 0\<rparr> 
                            \<lparr>vec_x = lit 0, vec_y = lit 0, vec_z = lit 10\<rparr>
                            \<lparr>vec_x = lit 0, vec_y = lit 0, vec_z = lit 1\<rparr>) 6 6 8 (lit 5)))"
proof -
  let ?h = "heapWith3 \<lparr>vec_x = lit 0, vec_y = lit 0, vec_z = lit 0\<rparr> 
                            \<lparr>vec_x = lit 0, vec_y = lit 0, vec_z = lit 10\<rparr>
                            \<lparr>vec_x = lit 0, vec_y = lit 0, vec_z = lit 1\<rparr>"
  have "Dot ?h 6 8 = fzero False"
    by (simp add: Dot_dotV dotV_def heapWith3_simps unit_arith)
  then have "fsub (Dot ?h 6 8) (lit 5) = fneg (lit 5)"
    by (simp add: fsub_zero_left lit_5_simps)
  then have e: "feq (fsub (Dot ?h 6 8) (lit 5)) (fsub (Dot ?h 6 8) (lit 5))"
    using isFinite_not_special [of "lit 5"] by (simp add: feq_refl_iff fneg_simps lit_5_simps)
  have "GetClipFactor ?h 6 7 8 (lit 5) = lit (1 / 2)"
    by (rule GetClipFactor_value [of ?h 6 7 8 "lit 5", THEN conjunct2, THEN conjunct2, 
          rule_format]) (simp add: heapWith3_simps)
  moreover have "isNaN (GetClipFactor ?h 6 6 8 (lit 5)) \<or> isInf (GetClipFactor ?h 6 6 8 (lit 5))"
    by (rule GetClipFactor_value [of ?h 6 6 8 "lit 5", THEN conjunct2, THEN conjunct1, 
          rule_format]) (rule e)
  ultimately show ?thesis by (rule conjI)
qed

subsection \<open>The identity matrix\<close>

lemma mget_Identity:
  "mget IdentityValues 0 = lit 1" "mget IdentityValues 1 = lit 0" "mget IdentityValues 2 = lit 0"
  "mget IdentityValues 3 = lit 0" "mget IdentityValues 4 = lit 0" "mget IdentityValues 5 = lit 1"
  "mget IdentityValues 6 = lit 0" "mget IdentityValues 7 = lit 0" "mget IdentityValues 8 = lit 0"
  "mget IdentityValues 9 = lit 0" "mget IdentityValues 10 = lit 1" 
  "mget IdentityValues 11 = lit 0" "mget IdentityValues 12 = lit 0" 
  "mget IdentityValues 13 = lit 0" "mget IdentityValues 14 = lit 0" 
  "mget IdentityValues 15 = lit 1" "mget IdentityValues (Suc 0) = lit 0"
  by (simp_all add: mget_def IdentityValues_def)

lemma positiveZero_simps:
  "isFinite a \<Longrightarrow> isFinite (positiveZero a)"
  "positiveZero (fzero s) = fzero False"
  "\<not> isZero a \<Longrightarrow> positiveZero a = a"
  by (simp_all add: positiveZero_def fzero_simps)

lemma identity_row:
  assumes "isFinite a" "isFinite b" "isFinite c"
  shows "fadd (fadd (fadd (fmul a (lit 1)) (fmul b (lit 0))) (fmul c (lit 0))) (lit 0) 
           = positiveZero a"
    and "fadd (fadd (fadd (fmul b (lit 0)) (fmul a (lit 1))) (fmul c (lit 0))) (lit 0) 
           = positiveZero a"
    and "fadd (fadd (fadd (fmul b (lit 0)) (fmul c (lit 0))) (fmul a (lit 1))) (lit 0) 
           = positiveZero a"
    and "fadd (fadd (fadd (fmul a (lit 0)) (fmul b (lit 0))) (fmul c (lit 0))) (lit 1) = lit 1"
  using assms isZero_eq [of a]
  by (auto simp: lit_0 fmul_one_right fmul_zero_right fadd_zero_right_gen fadd_zero_left_gen
      fzero_simps fadd_zero_zero positiveZero_def lit_1_simps)

lemma feq_positiveZero: "isFinite a \<Longrightarrow> feq (positiveZero a) a"
  using isFinite_not_special [of a]
  by (auto simp: positiveZero_def feq_def fzero_simps valof_eq_0 [THEN iffD2])

lemma fmul_positiveZero_one: "isFinite a \<Longrightarrow> fmul (positiveZero a) (lit 1) = positiveZero a"
  by (simp add: fmul_one_right positiveZero_simps)

lemma TransformCoordinatesFromFloatsToRef_identity:
  assumes "mat_m (matrices h t) = IdentityValues" "isFinite x" "isFinite y" "isFinite z"
  shows "TransformCoordinatesFromFloatsToRef h x y z t r =
     h\<lparr>vector3s := (vector3s h)(r := \<lparr>vec_x = positiveZero x, vec_y = positiveZero y, 
        vec_z = positiveZero z\<rparr>)\<rparr>"
  using assms
  by (simp add: TransformCoordinatesFromFloatsToRef_def mget_Identity identity_row Let_def 
      fdiv_one_one fmul_positiveZero_one Vector3_update_all)

text \<open>
  C5, as amended.  For every vector \<open>v\<close> whose three components are finite,
  \<^verbatim>\<open>TransformCoordinates(v, M)\<close> with \<open>M\<close> the identity matrix returns a vector whose
  components are those of \<open>v\<close>, a negative zero read as the positive zero: the result
  \<^verbatim>\<open>equals\<close> \<open>v\<close>.
\<close>

theorem TransformCoordinates_identity:
  assumes "mat_m (matrices h t) = IdentityValues" and "v < nextRef h"
    and "isFinite (vec_x (vector3s h v))" "isFinite (vec_y (vector3s h v))" 
      "isFinite (vec_z (vector3s h v))"
  shows "vector3s (snd (TransformCoordinates h v t)) (fst (TransformCoordinates h v t)) =
           \<lparr>vec_x = positiveZero (vec_x (vector3s h v)), 
            vec_y = positiveZero (vec_y (vector3s h v)),
            vec_z = positiveZero (vec_z (vector3s h v))\<rparr> \<and>
         equals (snd (TransformCoordinates h v t)) (fst (TransformCoordinates h v t)) v"
proof -
  let ?h1 = "snd (Zero h)"
  have r: "fst (Zero h) = nextRef h" by (simp add: Zero_def newVector3_simps)
  have m: "mat_m (matrices ?h1 t) = IdentityValues" 
    using assms(1) by (simp add: Zero_def newVector3_simps)
  have v: "vector3s ?h1 v = vector3s h v" 
    using assms(2) by (simp add: Zero_def newVector3_simps)
  have "TransformCoordinates h v t = 
     (nextRef h, ?h1\<lparr>vector3s := (vector3s ?h1)(nextRef h := 
        \<lparr>vec_x = positiveZero (vec_x (vector3s h v)), 
         vec_y = positiveZero (vec_y (vector3s h v)),
         vec_z = positiveZero (vec_z (vector3s h v))\<rparr>)\<rparr>)"
    using assms(3-5)
    by (simp add: TransformCoordinates_def TransformCoordinatesToRef_def split_def Let_def r v
        TransformCoordinatesFromFloatsToRef_identity [OF m])
  then show ?thesis
    using assms(2-5) by (simp add: equals_def v feq_positiveZero)
qed

theorem TransformCoordinates_identity_witness:
  "vector3s (snd (TransformCoordinates (heapWith (lit 5) (fzero True) (lit 10)) 6 0)) 
     (fst (TransformCoordinates (heapWith (lit 5) (fzero True) (lit 10)) 6 0)) =
           \<lparr>vec_x = lit 5, vec_y = fzero False, vec_z = lit 10\<rparr> \<and>
   equals (snd (TransformCoordinates (heapWith (lit 5) (fzero True) (lit 10)) 6 0)) 
     (fst (TransformCoordinates (heapWith (lit 5) (fzero True) (lit 10)) 6 0)) 6"
  using TransformCoordinates_identity [of "heapWith (lit 5) (fzero True) (lit 10)" 0 6]
  by (simp add: heapWith_simps lit_5_simps lit_10_simps fzero_simps positiveZero_simps)

subsection \<open>Infinities and NaN in the arithmetic\<close>

lemma fnan_absorbs:
  "fadd fnan a = fnan" "fadd a fnan = fnan" "fmul fnan a = fnan" "fmul a fnan = fnan"
  "fdiv fnan a = fnan" "fdiv a fnan = fnan"
  by (simp_all add: fadd_def fmul_def fdiv_def isNaN_fnan)

lemma finf_arith:
  "fmul (finf s) (lit 1) = finf s" "fmul (finf s) (fzero s') = fnan"
  "fadd (finf s) (fzero s') = finf s"
  by (simp_all add: fmul_def fadd_def isInf_finf lit_1_simps fzero_simps)

text \<open>
  C5, the claim as stated fails: the vector (Infinity, 0, 0) is transformed by the identity
  matrix into (NaN, NaN, NaN), which does not equal it (while the vector equals itself).
\<close>

theorem TransformCoordinates_identity_counterexample:
  "vector3s (snd (TransformCoordinates (heapWith (finf False) (fzero False) (fzero False)) 6 0))
     (fst (TransformCoordinates (heapWith (finf False) (fzero False) (fzero False)) 6 0)) =
       \<lparr>vec_x = fnan, vec_y = fnan, vec_z = fnan\<rparr> \<and>
   \<not> equals (snd (TransformCoordinates (heapWith (finf False) (fzero False) (fzero False)) 6 0))
     (fst (TransformCoordinates (heapWith (finf False) (fzero False) (fzero False)) 6 0)) 6 \<and>
   equals (heapWith (finf False) (fzero False) (fzero False)) 6 6"
proof -
  let ?h = "heapWith (finf False) (fzero False) (fzero False)"
  have t: "TransformCoordinates ?h 6 0 = 
    (7, (snd (Zero ?h))\<lparr>vector3s := (vector3s (snd (Zero ?h)))
       (7 := \<lparr>vec_x = fnan, vec_y = fnan, vec_z = fnan\<rparr>)\<rparr>)"
    by (simp add: TransformCoordinates_def TransformCoordinatesToRef_def split_def Let_def
        TransformCoordinatesFromFloatsToRef_def mget_Identity lit_0 finf_arith fnan_absorbs
        fmul_zero_left fzero_simps fadd_zero_zero Vector3_update_all Zero_def newVector3_simps 
        heapWith_simps)
  have v: "vector3s (snd (Zero ?h)) 6 = \<lparr>vec_x = finf False, vec_y = fzero False, vec_z = fzero False\<rparr>"
    by (simp add: Zero_def newVector3_simps heapWith_simps)
  show ?thesis
    by (simp add: t equals_def feq_def isNaN_fnan v heapWith_simps isInf_finf lit_0 fzero_simps)
qed

subsection \<open>The rounding error of an addition\<close>

lemma fle_finite: 
  assumes "isFinite a" "isFinite b" 
  shows "fle a b \<longleftrightarrow> valof a \<le> valof b"
  using isFinite_not_special [OF assms(1)] isFinite_not_special [OF assms(2)]
  by (auto simp: fle_def flt_def feq_def)

lemma fadd_err:
  assumes "isFinite a" "isFinite b" 
    and "\<bar>valof a + valof b\<bar> * 2 ^ emin < 2 ^ (53 + J)" "J \<le> 2044"
  shows "isFinite (fadd a b)"
    and "\<bar>valof (fadd a b) - (valof a + valof b)\<bar> \<le> 2 ^ J / 2 / 2 ^ emin"
proof -
  define r where "r = valof a + valof b"
  note ns = isFinite_not_special [OF assms(1)] isFinite_not_special [OF assms(2)]
  have f: "fadd a b = (if r = 0 then fzero (sign a \<and> sign b) else fround (r < 0) \<bar>r\<bar>)"
    using ns by (simp add: fadd_def r_def Let_def)
  have b: "\<bar>r\<bar> * 2 ^ emin < 2 ^ (53 + J)" using assms(3) by (simp add: r_def)
  show "isFinite (fadd a b)"
    unfolding f using fround_bound(1) [OF _ b assms(4)] by (simp add: fzero_simps)
  have "\<bar>valof (fadd a b) - r\<bar> \<le> 2 ^ J / 2 / 2 ^ emin"
  proof (cases "r = 0")
    case True
    then show ?thesis by (simp add: f fzero_simps)
  next
    case False
    have e: "\<bar>absval (fround (r < 0) \<bar>r\<bar>) - \<bar>r\<bar>\<bar> \<le> 2 ^ J / 2 / 2 ^ emin"
      by (rule fround_abs_err [OF _ b assms(4)]) simp
    have "valof (fround (r < 0) \<bar>r\<bar>) - r = 
        (if r < 0 then - (absval (fround (r < 0) \<bar>r\<bar>) - \<bar>r\<bar>) 
         else absval (fround (r < 0) \<bar>r\<bar>) - \<bar>r\<bar>)"
      by (simp add: valof_def sign_fround)
    then have "\<bar>valof (fround (r < 0) \<bar>r\<bar>) - r\<bar> = \<bar>absval (fround (r < 0) \<bar>r\<bar>) - \<bar>r\<bar>\<bar>"
      by (simp split: if_splits)
    then show ?thesis using e False by (simp add: f)
  qed
  then show "\<bar>valof (fadd a b) - (valof a + valof b)\<bar> \<le> 2 ^ J / 2 / 2 ^ emin"
    by (simp add: r_def)
qed

lemma add_subtract_within_Epsilon:
  assumes fa: "isFinite a" and fb: "isFinite b" 
    and ba: "absval a < 2 ^ 32" and bb: "absval b < 2 ^ 32"
  shows "WithinEpsilon (fsub (fadd a b) b) a Epsilon"
proof -
  define s where "s = fadd a b"
  define d where "d = fsub s b"
  define n where "n = fsub d a"
  have va: "\<bar>valof a\<bar> < 2 ^ 32" and vb: "\<bar>valof b\<bar> < 2 ^ 32" 
    using ba bb by (simp_all add: abs_valof)
  have p33: "(2::real) ^ 33 = 2 ^ 32 + 2 ^ 32" by simp
  have "\<bar>valof a + valof b\<bar> < 2 ^ 33" unfolding p33 using va vb by linarith
  then have "\<bar>valof a + valof b\<bar> * 2 ^ emin < 2 ^ 33 * 2 ^ emin"
    by (rule mult_strict_right_mono) simp
  then have b1: "\<bar>valof a + valof b\<bar> * 2 ^ emin < 2 ^ (53 + 1054)" by (simp add: emin_def)
  have fs: "isFinite s" unfolding s_def by (rule fadd_err(1) [OF fa fb b1]) simp
  have "\<bar>valof s - (valof a + valof b)\<bar> \<le> 2 ^ 1054 / 2 / 2 ^ emin"
    unfolding s_def by (rule fadd_err(2) [OF fa fb b1]) simp
  then have e1: "\<bar>valof s - (valof a + valof b)\<bar> \<le> 1 / 2 ^ 21" by (simp add: emin_def)
  have fnb: "isFinite (fneg b)" using fb by (simp add: fneg_simps)
  have "1 / 2 ^ 21 < (2::real) ^ 32" by simp
  then have "\<bar>valof s + valof (fneg b)\<bar> < 2 ^ 33" 
    unfolding p33 fneg_simps using e1 va by linarith
  then have "\<bar>valof s + valof (fneg b)\<bar> * 2 ^ emin < 2 ^ 33 * 2 ^ emin"
    by (rule mult_strict_right_mono) simp
  then have b2: "\<bar>valof s + valof (fneg b)\<bar> * 2 ^ emin < 2 ^ (53 + 1054)" 
    by (simp add: emin_def)
  have fd: "isFinite d" unfolding d_def fsub_def by (rule fadd_err(1) [OF fs fnb b2]) simp
  have "\<bar>valof d - (valof s + valof (fneg b))\<bar> \<le> 2 ^ 1054 / 2 / 2 ^ emin"
    unfolding d_def fsub_def by (rule fadd_err(2) [OF fs fnb b2]) simp
  then have e2: "\<bar>valof d - (valof s - valof b)\<bar> \<le> 1 / 2 ^ 21" 
    by (simp add: emin_def fneg_simps)
  have "(1::real) / 2 ^ 20 = 1 / 2 ^ 21 + 1 / 2 ^ 21" by simp
  then have e12: "\<bar>valof d - valof a\<bar> \<le> 1 / 2 ^ 20" using e1 e2 by linarith
  have fna: "isFinite (fneg a)" using fa by (simp add: fneg_simps)
  have "(1::real) / 2 ^ 20 < 1 / 2 ^ 19" by simp
  then have "\<bar>valof d + valof (fneg a)\<bar> < 1 / 2 ^ 19" 
    unfolding fneg_simps using e12 by linarith
  then have "\<bar>valof d + valof (fneg a)\<bar> * 2 ^ emin < 1 / 2 ^ 19 * 2 ^ emin"
    by (rule mult_strict_right_mono) simp
  then have b3: "\<bar>valof d + valof (fneg a)\<bar> * 2 ^ emin < 2 ^ (53 + 1002)" 
    by (simp add: emin_def)
  have fn: "isFinite n" unfolding n_def fsub_def by (rule fadd_err(1) [OF fd fna b3]) simp
  have "\<bar>valof n - (valof d + valof (fneg a))\<bar> \<le> 2 ^ 1002 / 2 / 2 ^ emin"
    unfolding n_def fsub_def by (rule fadd_err(2) [OF fd fna b3]) simp
  then have e3: "\<bar>valof n - (valof d - valof a)\<bar> \<le> 1 / 2 ^ 73" 
    by (simp add: emin_def fneg_simps)
  have "\<bar>valof n\<bar> \<le> 1 / 2 ^ 20 + 1 / 2 ^ 73" using e3 e12 by linarith
  also have "\<dots> \<le> valof Epsilon" by (simp add: Epsilon_simps)
  finally have "- valof Epsilon \<le> valof n \<and> valof n \<le> valof Epsilon" by linarith
  then show ?thesis
    using fn Epsilon_simps(1)
    by (simp add: WithinEpsilon_def n_def [symmetric] d_def [symmetric] s_def [symmetric] 
        fle_finite fneg_simps)
qed

text \<open>
  C6, as amended.  For all vectors \<open>a\<close> and \<open>b\<close> whose components are finite and of
  magnitude below \<open>2\<^sup>3\<^sup>2\<close>, \<^verbatim>\<open>a.add(b).subtract(b).equalsWithEpsilon(a)\<close> holds with
  the default epsilon.
\<close>

theorem add_subtract_equalsWithEpsilon:
  assumes "a < nextRef h" "b < nextRef h"
    and "componentsBelow 32 (vector3s h a)" "componentsBelow 32 (vector3s h b)"
  shows "equalsWithEpsilon (snd (subtract (snd (add h a b)) (fst (add h a b)) b))
           (fst (subtract (snd (add h a b)) (fst (add h a b)) b)) a Epsilon"
  using assms
  by (simp add: add_def subtract_def Let_def newVector3_simps equalsWithEpsilon_def 
      componentsBelow_def add_subtract_within_Epsilon)

lemma lit_two_60: "lit 1152921504606846976 = Double False 1083 0"
  by (rule lit_eqI) (simp_all add: isFinite_def valof_def absval_def ulps_def emin_def isZero_def)

lemma lit_two_60_simps: "isFinite (lit 1152921504606846976)" 
  "\<not> isZero (lit 1152921504606846976)" 
  "valof (lit 1152921504606846976) = 1152921504606846976" 
  by (simp_all add: lit_two_60 isFinite_def valof_def absval_def ulps_def emin_def isZero_def)

lemma lit_two_60_plus_1: "lit 1152921504606846977 = lit 1152921504606846976"
proof -
  have "fround False 1152921504606846977 = 
      encode False (1082 * 2 ^ 52 + rhe (1152921504606846977 * 2 ^ emin / 2 ^ 1082))"
    by (rule fround_eval) (simp add: emin_def)
  also have "(1152921504606846977 * 2 ^ emin / 2 ^ 1082 :: real) = 4503599627370496 + 1 / 256"
    by (simp add: emin_def)
  also have "rhe \<dots> = 4503599627370496"
    by (simp add: rhe_def)
  also have "encode False (1082 * 2 ^ 52 + 4503599627370496) = Double False 1083 0"
    by (simp add: encode_def)
  finally have "lit 1152921504606846977 = Double False 1083 0" by (simp add: lit_def)
  then show ?thesis by (simp only: lit_two_60)
qed

lemma absorbed_one:
  "fsub (fadd (lit 1) (lit 1152921504606846976)) (lit 1152921504606846976) = fzero False"
proof -
  have "fadd (lit 1) (lit 1152921504606846976) = lit 1152921504606846976"
    using fadd_finite [of "lit 1" "lit 1152921504606846976"] 
    by (simp add: lit_1_simps lit_two_60_simps lit_two_60_plus_1)
  then show ?thesis
    using fadd_cancel [of "lit 1152921504606846976" "fneg (lit 1152921504606846976)"]
    by (simp add: fsub_def fneg_simps lit_two_60_simps)
qed

lemma not_WithinEpsilon_zero_one: "\<not> WithinEpsilon (fzero False) (lit 1) Epsilon"
proof -
  have "fsub (fzero False) (lit 1) = fneg (lit 1)"
    by (simp add: fsub_zero_left lit_1_simps)
  then show ?thesis
    by (simp add: WithinEpsilon_def fle_finite fneg_simps Epsilon_simps lit_1_simps)
qed

text \<open>
  C6, the claim as stated fails: with \<open>a\<close> = (1, 0, 0) and \<open>b\<close> = (1152921504606846976, 0, 0), whose first component is \<open>2\<^sup>6\<^sup>0\<close>, the sum
  \<open>a + b\<close> rounds to \<open>b\<close>, the difference is (0, 0, 0), and 0 is not within epsilon of 1.
\<close>

theorem add_subtract_equalsWithEpsilon_counterexample:
  "\<not> equalsWithEpsilon 
       (snd (subtract (snd (add (heapWith2 (lit 1) (fzero False) (fzero False) 
                                           (lit 1152921504606846976) (fzero False) (fzero False)) 6 7)) 
                      (fst (add (heapWith2 (lit 1) (fzero False) (fzero False) 
                                           (lit 1152921504606846976) (fzero False) (fzero False)) 6 7)) 7))
       (fst (subtract (snd (add (heapWith2 (lit 1) (fzero False) (fzero False) 
                                           (lit 1152921504606846976) (fzero False) (fzero False)) 6 7)) 
                      (fst (add (heapWith2 (lit 1) (fzero False) (fzero False) 
                                           (lit 1152921504606846976) (fzero False) (fzero False)) 6 7)) 7)) 
       6 Epsilon"
  by (simp add: add_def subtract_def Let_def newVector3_simps equalsWithEpsilon_def 
      heapWith2_simps absorbed_one not_WithinEpsilon_zero_one)

theorem add_subtract_equalsWithEpsilon_witness:
  "equalsWithEpsilon 
       (snd (subtract (snd (add (heapWith2 (lit 1) (lit 5) (fzero True) 
                                           (lit 10) (fzero False) (lit 2)) 6 7)) 
                      (fst (add (heapWith2 (lit 1) (lit 5) (fzero True) 
                                           (lit 10) (fzero False) (lit 2)) 6 7)) 7))
       (fst (subtract (snd (add (heapWith2 (lit 1) (lit 5) (fzero True) 
                                           (lit 10) (fzero False) (lit 2)) 6 7)) 
                      (fst (add (heapWith2 (lit 1) (lit 5) (fzero True) 
                                           (lit 10) (fzero False) (lit 2)) 6 7)) 7)) 
       6 Epsilon"
proof -
  have "absval (lit 5) = 5" "absval (lit 10) = 10"
    using abs_valof [of "lit 5"] abs_valof [of "lit 10"] 
    by (simp_all add: lit_5_simps lit_10_simps)
  then show ?thesis
    by (intro add_subtract_equalsWithEpsilon)
       (simp_all add: heapWith2_simps componentsBelow_def lit_1_simps lit_2_simps lit_5_simps 
         lit_10_simps fzero_simps)
qed

subsection \<open>The rounding error of one operation\<close>

text \<open>
  Rounding a real below \<open>2\<^sup>1\<^sup>0\<^sup>2\<^sup>3\<close> gives a finite double, off by at most the relative error
  \<open>2\<^sup>-\<^sup>5\<^sup>3\<close> plus half the least subnormal.
\<close>

lemma fround_err:
  assumes r: "0 \<le> r" and u: "r < 2 ^ 1023"
  shows "isFinite (fround s r)"
    and "\<bar>absval (fround s r) - r\<bar> \<le> r / 2 ^ 53 + 1 / 2 ^ 1075"
proof -
  define t where "t = r * 2 ^ emin"
  define j where "j = fexp t"
  have t0: "0 \<le> t" using r by (simp add: t_def)
  have tu: "r * 2 ^ emin < 2 ^ (53 + j)" unfolding j_def t_def [symmetric] by (rule fexp_upper)
  have "r * 2 ^ emin < 2 ^ 1023 * 2 ^ emin" using u by (rule mult_strict_right_mono) simp
  then have t2097: "t < 2 ^ 2097" by (simp add: t_def emin_def)
  have jle: "j \<le> 2044"
  proof (cases "0 < j")
    case True
    then have "(2::real) ^ (52 + j) \<le> t" unfolding j_def by (rule fexp_lower)
    then have "(2::real) ^ (52 + j) < 2 ^ 2097" using t2097 by linarith
    moreover have "(1::real) < 2" by simp
    ultimately have "52 + j < 2097" by (rule power_less_imp_less_exp [rotated])
    then show ?thesis by simp
  qed simp
  show "isFinite (fround s r)" by (rule fround_bound(1) [OF r tu jle])
  have b: "\<bar>real (ulps (fround s r)) - t\<bar> \<le> 2 ^ j / 2"
    unfolding t_def by (rule fround_bound(3) [OF r tu jle])
  have "(2::real) ^ j / 2 \<le> t / 2 ^ 53 + 1 / 2"
  proof (cases "0 < j")
    case True
    then have "(2::real) ^ (52 + j) \<le> t" unfolding j_def by (rule fexp_lower)
    then have "(2::real) ^ (52 + j) / 2 ^ 53 \<le> t / 2 ^ 53" by (rule divide_right_mono) simp
    moreover have "(2::real) ^ (52 + j) / 2 ^ 53 = 2 ^ j / 2" by (simp add: power_add)
    ultimately show ?thesis by simp
  next
    case False
    then show ?thesis using t0 by simp
  qed
  then have "\<bar>real (ulps (fround s r)) - t\<bar> \<le> t / 2 ^ 53 + 1 / 2" using b by linarith
  then have "\<bar>real (ulps (fround s r)) - t\<bar> / 2 ^ emin \<le> (t / 2 ^ 53 + 1 / 2) / 2 ^ emin"
    by (rule divide_right_mono) simp
  moreover have "(real (ulps (fround s r)) - t) / 2 ^ emin = absval (fround s r) - r"
    by (simp add: absval_def diff_divide_distrib t_def)
  then have "\<bar>real (ulps (fround s r)) - t\<bar> / 2 ^ emin = \<bar>absval (fround s r) - r\<bar>"
    by (metis abs_divide abs_numeral abs_power2 power_abs)
  moreover have "(t / 2 ^ 53 + 1 / 2) / 2 ^ emin = r / 2 ^ 53 + 1 / 2 ^ 1075"
    by (simp add: t_def emin_def add_divide_distrib)
  ultimately show "\<bar>absval (fround s r) - r\<bar> \<le> r / 2 ^ 53 + 1 / 2 ^ 1075" by simp
qed

lemma valof_fround_err:
  assumes "0 \<le> r" "r < 2 ^ 1023"
  shows "\<bar>valof (fround s r) - (if s then - r else r)\<bar> \<le> r / 2 ^ 53 + 1 / 2 ^ 1075"
  using fround_err(2) [OF assms, of s] by (auto simp: valof_def sign_fround)

lemma absval_less: 
  assumes "isFinite d" 
  shows "absval d < 2 ^ 1024"
proof -
  have "ulps d < 2 ^ 2098"
  proof (cases "expo d = 0")
    case True
    have "ulps d < 2 ^ 52" by (rule ulps_bounds(1) [OF assms True])
    also have "(2::nat) ^ 52 < 2 ^ 2098" by simp
    finally show ?thesis .
  next
    case False
    have "ulps d < 2 ^ (53 + (unat (expo d) - 1))" by (rule ulps_bounds(3) [OF assms False])
    also have "(2::nat) ^ (53 + (unat (expo d) - 1)) \<le> 2 ^ 2098"
      using unat_expo_bounds(2) [OF assms False] by (intro power_increasing) auto
    finally show ?thesis .
  qed
  then have "real (ulps d) < 2 ^ 2098" 
    by (simp only: of_nat_less_numeral_power_cancel_iff)
  then have "real (ulps d) / 2 ^ emin < 2 ^ 2098 / 2 ^ emin"
    by (rule divide_strict_right_mono) simp
  then show ?thesis by (simp add: absval_def emin_def)
qed

lemma fmul_err:
  assumes "isFinite a" "isFinite b" "\<bar>valof a * valof b\<bar> < 2 ^ 1023"
  shows "isFinite (fmul a b)"
    and "\<bar>valof (fmul a b) - valof a * valof b\<bar> \<le> \<bar>valof a * valof b\<bar> / 2 ^ 53 + 1 / 2 ^ 1075"
proof -
  note ns = isFinite_not_special [OF assms(1)] isFinite_not_special [OF assms(2)]
  have f: "fmul a b = fround (sign a \<noteq> sign b) (absval a * absval b)"
    using ns by (simp add: fmul_def)
  have p: "\<bar>valof a * valof b\<bar> = absval a * absval b" by (simp add: abs_mult abs_valof)
  have r: "0 \<le> absval a * absval b" "absval a * absval b < 2 ^ 1023"
  proof -
    show "0 \<le> absval a * absval b" using absval_nonneg [of a] absval_nonneg [of b] by simp
    show "absval a * absval b < 2 ^ 1023" using assms(3) unfolding p .
  qed
  show "isFinite (fmul a b)" unfolding f by (rule fround_err(1) [OF r])
  have "valof a * valof b = (if sign a \<noteq> sign b then - (absval a * absval b) 
      else absval a * absval b)"
    by (simp add: valof_def)
  then show "\<bar>valof (fmul a b) - valof a * valof b\<bar> \<le> 
      \<bar>valof a * valof b\<bar> / 2 ^ 53 + 1 / 2 ^ 1075"
    unfolding f p using valof_fround_err [OF r, of "sign a \<noteq> sign b"] by simp
qed

lemma fadd_err_rel:
  assumes "isFinite a" "isFinite b" "\<bar>valof a + valof b\<bar> < 2 ^ 1023"
  shows "isFinite (fadd a b)"
    and "\<bar>valof (fadd a b) - (valof a + valof b)\<bar> \<le> 
           \<bar>valof a + valof b\<bar> / 2 ^ 53 + 1 / 2 ^ 1075"
proof -
  define r where "r = valof a + valof b"
  note ns = isFinite_not_special [OF assms(1)] isFinite_not_special [OF assms(2)]
  have f: "fadd a b = (if r = 0 then fzero (sign a \<and> sign b) else fround (r < 0) \<bar>r\<bar>)"
    using ns by (simp add: fadd_def r_def Let_def)
  have b: "0 \<le> \<bar>r\<bar>" "\<bar>r\<bar> < 2 ^ 1023" using assms(3) by (simp_all add: r_def)
  show "isFinite (fadd a b)"
    unfolding f using fround_err(1) [OF b] by (simp add: fzero_simps)
  have "\<bar>valof (fadd a b) - r\<bar> \<le> \<bar>r\<bar> / 2 ^ 53 + 1 / 2 ^ 1075"
  proof (cases "r = 0")
    case True
    then show ?thesis by (simp add: f fzero_simps)
  next
    case False
    have "(if r < 0 then - \<bar>r\<bar> else \<bar>r\<bar>) = r" by simp
    then show ?thesis using valof_fround_err [OF b, of "r < 0"] False by (simp add: f)
  qed
  then show "\<bar>valof (fadd a b) - (valof a + valof b)\<bar> \<le> 
           \<bar>valof a + valof b\<bar> / 2 ^ 53 + 1 / 2 ^ 1075"
    by (simp add: r_def)
qed

lemma fdiv_err:
  assumes "isFinite a" "isFinite b" "\<not> isZero b" "\<bar>valof a / valof b\<bar> < 2 ^ 1023"
  shows "isFinite (fdiv a b)"
    and "\<bar>valof (fdiv a b) - valof a / valof b\<bar> \<le> \<bar>valof a / valof b\<bar> / 2 ^ 53 + 1 / 2 ^ 1075"
proof -
  note ns = isFinite_not_special [OF assms(1)] isFinite_not_special [OF assms(2)]
  have f: "fdiv a b = fround (sign a \<noteq> sign b) (absval a / absval b)"
    using ns assms(3) by (simp add: fdiv_def)
  have p: "\<bar>valof a / valof b\<bar> = absval a / absval b" by (simp add: abs_valof)
  have r: "0 \<le> absval a / absval b" "absval a / absval b < 2 ^ 1023"
  proof -
    show "0 \<le> absval a / absval b" using absval_nonneg [of a] absval_nonneg [of b] by simp
    show "absval a / absval b < 2 ^ 1023" using assms(4) unfolding p .
  qed
  show "isFinite (fdiv a b)" unfolding f by (rule fround_err(1) [OF r])
  have "valof a / valof b = (if sign a \<noteq> sign b then - (absval a / absval b) 
      else absval a / absval b)"
    by (simp add: valof_def)
  then show "\<bar>valof (fdiv a b) - valof a / valof b\<bar> \<le> 
      \<bar>valof a / valof b\<bar> / 2 ^ 53 + 1 / 2 ^ 1075"
    unfolding f p using valof_fround_err [OF r, of "sign a \<noteq> sign b"] by simp
qed

lemma fsqrt_err:
  assumes "isFinite a" "0 \<le> valof a"
  shows "isFinite (fsqrt a)"
    and "\<bar>valof (fsqrt a) - sqrt (valof a)\<bar> \<le> sqrt (valof a) / 2 ^ 53 + 1 / 2 ^ 1075"
proof -
  note ns = isFinite_not_special [OF assms(1)]
  have "isFinite (fsqrt a) \<and> 
    \<bar>valof (fsqrt a) - sqrt (valof a)\<bar> \<le> sqrt (valof a) / 2 ^ 53 + 1 / 2 ^ 1075"
  proof (cases "isZero a")
    case True
    then show ?thesis using ns assms(1) 
      by (simp add: fsqrt_def valof_eq_0 [THEN iffD2])
  next
    case False
    then have s: "\<not> sign a" using assms(2) valof_neg_iff [of a] by auto
    then have v: "valof a = absval a" by (simp add: valof_def)
    have f: "fsqrt a = fround False (sqrt (absval a))"
      using ns False s by (simp add: fsqrt_def)
    have e: "(2::real) ^ 1024 = (2 ^ 512)\<^sup>2" by simp
    have "sqrt (absval a) < sqrt ((2 ^ 512)\<^sup>2)" 
      using absval_less [OF assms(1)] unfolding e by (simp only: real_sqrt_less_iff)
    also have "sqrt ((2 ^ 512)\<^sup>2) = (2::real) ^ 512" by (rule real_sqrt_unique) simp_all
    also have "(2::real) ^ 512 < 2 ^ 1023" by simp
    finally have r: "0 \<le> sqrt (absval a)" "sqrt (absval a) < 2 ^ 1023" 
      using absval_nonneg [of a] by simp_all
    show ?thesis
      unfolding f v using fround_err(1) [OF r, of False] valof_fround_err [OF r, of False] 
      by simp
  qed
  then show "isFinite (fsqrt a)"
    and "\<bar>valof (fsqrt a) - sqrt (valof a)\<bar> \<le> sqrt (valof a) / 2 ^ 53 + 1 / 2 ^ 1075"
    by simp_all
qed

subsection \<open>The error of a computed length\<close>

lemma pow2_values:
  "(2::real) ^ 40 = 1099511627776" "(2::real) ^ 41 = 2199023255552" 
  "(2::real) ^ 43 = 8796093022208" "(2::real) ^ 44 = 17592186044416"
  "(2::real) ^ 45 = 35184372088832" "(2::real) ^ 46 = 70368744177664"
  "(2::real) ^ 47 = 140737488355328" "(2::real) ^ 48 = 281474976710656" 
  "(2::real) ^ 50 = 1125899906842624" "(2::real) ^ 53 = 9007199254740992" 
  "(2::real) ^ 75 = 37778931862957161709568"
  by simp_all

lemma sum_of_squares_real:
  fixes X2 Y2 Z2 sx sy sz s1 s2 \<eta> :: real
  assumes "0 \<le> X2" "0 \<le> Y2" "0 \<le> Z2" "0 \<le> \<eta>" "\<eta> \<le> (X2 + Y2 + Z2) / 2 ^ 75"
    and "\<bar>sx - X2\<bar> \<le> X2 / 2 ^ 53 + \<eta>" "\<bar>sy - Y2\<bar> \<le> Y2 / 2 ^ 53 + \<eta>" 
      "\<bar>sz - Z2\<bar> \<le> Z2 / 2 ^ 53 + \<eta>"
    and "\<bar>s1 - (sx + sy)\<bar> \<le> (sx + sy) / 2 ^ 53 + \<eta>"
    and "\<bar>s2 - (s1 + sz)\<bar> \<le> (s1 + sz) / 2 ^ 53 + \<eta>"
  shows "\<bar>s2 - (X2 + Y2 + Z2)\<bar> \<le> (X2 + Y2 + Z2) / 2 ^ 47"
proof -
  have a: "X2 - (X2 / 2 ^ 53 + \<eta>) \<le> sx" "sx \<le> X2 + (X2 / 2 ^ 53 + \<eta>)"
    "Y2 - (Y2 / 2 ^ 53 + \<eta>) \<le> sy" "sy \<le> Y2 + (Y2 / 2 ^ 53 + \<eta>)"
    "Z2 - (Z2 / 2 ^ 53 + \<eta>) \<le> sz" "sz \<le> Z2 + (Z2 / 2 ^ 53 + \<eta>)"
    "sx + sy - ((sx + sy) / 2 ^ 53 + \<eta>) \<le> s1" "s1 \<le> sx + sy + ((sx + sy) / 2 ^ 53 + \<eta>)"
    "s1 + sz - ((s1 + sz) / 2 ^ 53 + \<eta>) \<le> s2" "s2 \<le> s1 + sz + ((s1 + sz) / 2 ^ 53 + \<eta>)"
    using assms(6-10) unfolding abs_diff_le_iff by simp_all
  have u1: "sx + sy \<le> (X2 + Y2) + (X2 + Y2) / 2 ^ 53 + 2 * \<eta>"
    using a(2,4) unfolding pow2_values by argo
  have u2: "s1 \<le> (X2 + Y2) + (X2 + Y2) / 2 ^ 50 + 4 * \<eta>"
    using u1 a(8) assms(1,2,4) unfolding pow2_values by argo
  have u3: "s1 + sz \<le> (X2 + Y2 + Z2) + (X2 + Y2 + Z2) / 2 ^ 50 + 5 * \<eta>"
    using u2 a(6) assms(1-4) unfolding pow2_values by argo
  have u4: "s2 \<le> (X2 + Y2 + Z2) + (X2 + Y2 + Z2) / 2 ^ 48 + 7 * \<eta>"
    using u3 a(10) assms(1-4) unfolding pow2_values by argo
  have l1: "(X2 + Y2) - (X2 + Y2) / 2 ^ 53 - 2 * \<eta> \<le> sx + sy"
    using a(1,3) unfolding pow2_values by argo
  have l2: "(X2 + Y2) - (X2 + Y2) / 2 ^ 50 - 4 * \<eta> \<le> s1"
    using l1 u1 a(7) assms(1,2,4) unfolding pow2_values by argo
  have l3: "(X2 + Y2 + Z2) - (X2 + Y2 + Z2) / 2 ^ 50 - 5 * \<eta> \<le> s1 + sz"
    using l2 a(5) assms(1-4) unfolding pow2_values by argo
  have l4: "(X2 + Y2 + Z2) - (X2 + Y2 + Z2) / 2 ^ 48 - 7 * \<eta> \<le> s2"
    using l3 u3 a(9) assms(1-4) unfolding pow2_values by argo
  have u: "s2 \<le> X2 + Y2 + Z2 + (X2 + Y2 + Z2) / 2 ^ 47"
    using u4 assms(1-5) unfolding pow2_values by argo
  have l: "X2 + Y2 + Z2 - (X2 + Y2 + Z2) / 2 ^ 47 \<le> s2"
    using l4 assms(1-5) unfolding pow2_values by argo
  show ?thesis unfolding abs_diff_le_iff using u l by simp
qed

lemma sqrt_rel:
  fixes S s :: real
  assumes "0 \<le> S" "\<bar>s - S\<bar> \<le> S / 2 ^ 47"
  shows "\<bar>sqrt s - sqrt S\<bar> \<le> sqrt S / 2 ^ 47"
proof -
  define d :: real where "d = 1 / 2 ^ 47"
  have d: "0 \<le> d" "d \<le> 1" by (simp_all add: d_def)
  have b: "S * (1 - d) \<le> s" "s \<le> S * (1 + d)"
    using assms(2) unfolding abs_diff_le_iff by (simp_all add: d_def algebra_simps)
  have "S * (1 - d)\<^sup>2 \<le> S * (1 - d)"
    using assms(1) d by (intro mult_left_mono) (auto simp: power2_eq_square intro: mult_left_le)
  then have "S * (1 - d)\<^sup>2 \<le> s" using b by linarith
  then have "sqrt (S * (1 - d)\<^sup>2) \<le> sqrt s" by (simp only: real_sqrt_le_iff)
  then have l: "sqrt S * (1 - d) \<le> sqrt s" using d by (simp add: real_sqrt_mult)
  have "S * (1 + d) \<le> S * (1 + d)\<^sup>2"
    using assms(1) d by (intro mult_left_mono) (auto simp: power2_eq_square intro: mult_left_le)
  then have "s \<le> S * (1 + d)\<^sup>2" using b by linarith
  then have "sqrt s \<le> sqrt (S * (1 + d)\<^sup>2)" by (simp only: real_sqrt_le_iff)
  then have u: "sqrt s \<le> sqrt S * (1 + d)" using d by (simp add: real_sqrt_mult)
  have "sqrt S - sqrt S * d \<le> sqrt s" "sqrt s \<le> sqrt S + sqrt S * d"
    using l u by (simp_all add: algebra_simps)
  then show ?thesis
    unfolding abs_diff_le_iff d_def by simp
qed

lemma length_real:
  fixes L r len \<eta> :: real
  assumes "0 \<le> L" "\<bar>r - L\<bar> \<le> L / 2 ^ 47" "\<bar>len - r\<bar> \<le> r / 2 ^ 53 + \<eta>" 
    "0 \<le> \<eta>" "\<eta> \<le> L / 2 ^ 75"
  shows "\<bar>len - L\<bar> \<le> L / 2 ^ 46"
proof -
  have a: "L - L / 2 ^ 47 \<le> r" "r \<le> L + L / 2 ^ 47" 
    "r - (r / 2 ^ 53 + \<eta>) \<le> len" "len \<le> r + (r / 2 ^ 53 + \<eta>)"
    using assms(2,3) unfolding abs_diff_le_iff by simp_all
  have u: "len \<le> L + L / 2 ^ 46"
    using a(2,4) assms(1,4,5) unfolding pow2_values by argo
  have l: "L - L / 2 ^ 46 \<le> len"
    using a(1,3) assms(1,4,5) unfolding pow2_values by argo
  show ?thesis unfolding abs_diff_le_iff using u l by simp
qed

lemma reciprocal_real:
  fixes L v :: real
  assumes "0 < L" "\<bar>v - L\<bar> \<le> L / 2 ^ 46"
  shows "0 < v" "\<bar>1 / v - 1 / L\<bar> \<le> 1 / L / 2 ^ 45"
proof -
  define q where "q = v / L"
  have v: "v = q * L" using assms(1) by (simp add: q_def)
  have "\<bar>v - L\<bar> / L \<le> L / 2 ^ 46 / L" using assms by (intro divide_right_mono) simp_all
  then have "\<bar>(v - L) / L\<bar> \<le> 1 / 2 ^ 46" using assms(1) by simp
  moreover have "(v - L) / L = q - 1" using assms(1) by (simp add: q_def diff_divide_distrib)
  ultimately have "\<bar>q - 1\<bar> \<le> 1 / 2 ^ 46" by simp
  then have q: "q - 1 \<le> 1 / 2 ^ 46" "- (1 / 2 ^ 46) \<le> q - 1" by linarith+
  have q0: "0 < q" using q unfolding pow2_values by argo
  show "0 < v" unfolding v using q0 assms(1) by simp
  have "1 \<le> (1 + 1 / 2 ^ 45) * q" using q unfolding pow2_values by argo
  then have u: "1 / q \<le> 1 + 1 / 2 ^ 45" using q0 by (simp add: divide_le_eq)
  have "(1 - 1 / 2 ^ 45) * q \<le> 1" using q unfolding pow2_values by argo
  then have l: "1 - 1 / 2 ^ 45 \<le> 1 / q" using q0 by (simp add: le_divide_eq)
  have "\<bar>1 / q - 1\<bar> \<le> 1 / 2 ^ 45" using l u unfolding abs_diff_le_iff by simp
  then have "\<bar>1 / q - 1\<bar> * (1 / L) \<le> 1 / 2 ^ 45 * (1 / L)"
    using assms(1) by (intro mult_right_mono) simp_all
  moreover have "(1 / q - 1) / L = 1 / v - 1 / L"
    using assms(1) q0 by (simp add: v field_simps)
  then have "\<bar>(1 / q - 1) / L\<bar> = \<bar>1 / v - 1 / L\<bar>" by simp
  then have "\<bar>1 / q - 1\<bar> / \<bar>L\<bar> = \<bar>1 / v - 1 / L\<bar>" by (simp only: abs_divide)
  then have "\<bar>1 / q - 1\<bar> * (1 / L) = \<bar>1 / v - 1 / L\<bar>" using assms(1) by simp
  ultimately show "\<bar>1 / v - 1 / L\<bar> \<le> 1 / L / 2 ^ 45" by simp
qed


lemma square_bound:
  fixes X :: real
  assumes "\<bar>X\<bar> \<le> 2 ^ 501"
  shows "X * X \<le> 2 ^ 1002" "0 \<le> X * X"
proof -
  have "\<bar>X\<bar> * \<bar>X\<bar> \<le> 2 ^ 501 * 2 ^ 501"
    by (rule mult_mono) (use assms in simp_all)
  then show "X * X \<le> 2 ^ 1002" by (simp add: abs_mult_self_eq flip: power_add)
  show "0 \<le> X * X" by simp
qed

lemma fmul_self_nonneg: 
  assumes "isFinite x" 
  shows "0 \<le> valof (fmul x x)"
proof -
  have "fmul x x = fround False (absval x * absval x)"
    using isFinite_not_special [OF assms] by (simp add: fmul_def)
  then show ?thesis by (simp add: valof_def sign_fround absval_nonneg)
qed

lemma fadd_nonneg:
  assumes "isFinite a" "isFinite b" "0 \<le> valof a + valof b"
  shows "0 \<le> valof (fadd a b)"
proof -
  have "fadd a b = (if valof a + valof b = 0 then fzero (sign a \<and> sign b) 
      else fround False \<bar>valof a + valof b\<bar>)"
    using isFinite_not_special [OF assms(1)] isFinite_not_special [OF assms(2)] assms(3)
    by (simp add: fadd_def Let_def not_less [symmetric])
  then show ?thesis by (simp add: valof_def sign_fround absval_nonneg fzero_simps)
qed

lemma sum_of_squares_err:
  assumes fin: "isFinite x" "isFinite y" "isFinite z"
    and up: "\<bar>valof x\<bar> \<le> 2 ^ 501" "\<bar>valof y\<bar> \<le> 2 ^ 501" "\<bar>valof z\<bar> \<le> 2 ^ 501"
    and low: "1 / 2 ^ 1000 \<le> valof x * valof x + valof y * valof y + valof z * valof z"
  shows "isFinite (fadd (fadd (fmul x x) (fmul y y)) (fmul z z))"
    and "\<bar>valof (fadd (fadd (fmul x x) (fmul y y)) (fmul z z)) -
          (valof x * valof x + valof y * valof y + valof z * valof z)\<bar>
         \<le> (valof x * valof x + valof y * valof y + valof z * valof z) / 2 ^ 47"
proof -
  define X2 where "X2 = valof x * valof x"
  define Y2 where "Y2 = valof y * valof y"
  define Z2 where "Z2 = valof z * valof z"
  define \<eta> :: real where "\<eta> = 1 / 2 ^ 1075"
  define B :: real where "B = 2 ^ 1002"
  define T :: real where "T = 2 ^ 1023"
  have BT: "32 * B \<le> T" "0 < B" by (simp_all add: B_def T_def)
  have eta: "\<eta> \<le> (X2 + Y2 + Z2) / 2 ^ 75" "0 \<le> \<eta>" "\<eta> \<le> B"
  proof -
    have "\<eta> = 1 / 2 ^ 1000 / 2 ^ 75" by (simp add: \<eta>_def)
    also have "\<dots> \<le> (X2 + Y2 + Z2) / 2 ^ 75"
      using low unfolding X2_def Y2_def Z2_def by (rule divide_right_mono) simp
    finally show "\<eta> \<le> (X2 + Y2 + Z2) / 2 ^ 75" .
    show "0 \<le> \<eta>" "\<eta> \<le> B" by (simp_all add: \<eta>_def B_def)
  qed
  have b: "0 \<le> X2" "X2 \<le> B" "0 \<le> Y2" "Y2 \<le> B" "0 \<le> Z2" "Z2 \<le> B"
    unfolding X2_def Y2_def Z2_def B_def using square_bound up by simp_all
  have px: "\<bar>valof x * valof x\<bar> < 2 ^ 1023" "\<bar>valof y * valof y\<bar> < 2 ^ 1023" 
    "\<bar>valof z * valof z\<bar> < 2 ^ 1023"
    using b BT unfolding X2_def Y2_def Z2_def B_def T_def by simp_all
  note ex = fmul_err [OF fin(1) fin(1) px(1), folded X2_def \<eta>_def]
  note ey = fmul_err [OF fin(2) fin(2) px(2), folded Y2_def \<eta>_def]
  note ez = fmul_err [OF fin(3) fin(3) px(3), folded Z2_def \<eta>_def]
  define sx where "sx = valof (fmul x x)"
  define sy where "sy = valof (fmul y y)"
  define sz where "sz = valof (fmul z z)"
  have e1: "\<bar>sx - X2\<bar> \<le> X2 / 2 ^ 53 + \<eta>" "\<bar>sy - Y2\<bar> \<le> Y2 / 2 ^ 53 + \<eta>" 
    "\<bar>sz - Z2\<bar> \<le> Z2 / 2 ^ 53 + \<eta>"
    using ex(2) ey(2) ez(2) b unfolding sx_def sy_def sz_def by simp_all
  have n1: "0 \<le> sx" "0 \<le> sy" "0 \<le> sz"
    unfolding sx_def sy_def sz_def using fin by (simp_all add: fmul_self_nonneg)
  have u1: "sx \<le> 3 * B" "sy \<le> 3 * B" "sz \<le> 3 * B"
  proof -
    show "sx \<le> 3 * B" 
      using e1(1) b(1,2) eta(2,3) unfolding abs_diff_le_iff pow2_values by argo
    show "sy \<le> 3 * B" 
      using e1(2) b(3,4) eta(2,3) unfolding abs_diff_le_iff pow2_values by argo
    show "sz \<le> 3 * B" 
      using e1(3) b(5,6) eta(2,3) unfolding abs_diff_le_iff pow2_values by argo
  qed
  have p1: "\<bar>valof (fmul x x) + valof (fmul y y)\<bar> < 2 ^ 1023"
    using BT n1 u1 unfolding sx_def sy_def T_def by linarith
  note e12 = fadd_err_rel [OF ex(1) ey(1) p1, folded \<eta>_def sx_def sy_def]
  define s1 where "s1 = valof (fadd (fmul x x) (fmul y y))"
  have n2: "0 \<le> s1" unfolding s1_def 
    by (rule fadd_nonneg [OF ex(1) ey(1)]) (use n1 in \<open>simp add: sx_def sy_def\<close>)
  have e2: "\<bar>s1 - (sx + sy)\<bar> \<le> (sx + sy) / 2 ^ 53 + \<eta>"
    using e12(2) n1 unfolding s1_def by simp
  have u2: "s1 \<le> 8 * B"
    using e2 u1(1,2) n1(1,2) eta(2,3) unfolding abs_diff_le_iff pow2_values by argo
  have p2: "\<bar>valof (fadd (fmul x x) (fmul y y)) + valof (fmul z z)\<bar> < 2 ^ 1023"
    using BT n1 n2 u1 u2 unfolding s1_def sz_def T_def by linarith
  note e123 = fadd_err_rel [OF e12(1) ez(1) p2, folded \<eta>_def s1_def sz_def]
  show "isFinite (fadd (fadd (fmul x x) (fmul y y)) (fmul z z))" by (rule e123(1))
  define s2 where "s2 = valof (fadd (fadd (fmul x x) (fmul y y)) (fmul z z))"
  have e3: "\<bar>s2 - (s1 + sz)\<bar> \<le> (s1 + sz) / 2 ^ 53 + \<eta>"
    using e123(2) n1 n2 unfolding s2_def by simp
  have "\<bar>s2 - (X2 + Y2 + Z2)\<bar> \<le> (X2 + Y2 + Z2) / 2 ^ 47"
    by (rule sum_of_squares_real [OF b(1,3,5) eta(2,1) e1 e2 e3])
  then show "\<bar>valof (fadd (fadd (fmul x x) (fmul y y)) (fmul z z)) -
          (valof x * valof x + valof y * valof y + valof z * valof z)\<bar>
         \<le> (valof x * valof x + valof y * valof y + valof z * valof z) / 2 ^ 47"
    unfolding s2_def X2_def Y2_def Z2_def .
qed


lemma sqrt_pow2_bounds:
  "sqrt (1 / 2 ^ 1000) = 1 / 2 ^ 500" "sqrt (2 ^ 1002) = 2 ^ 501"
proof -
  show "sqrt (1 / 2 ^ 1000) = 1 / 2 ^ 500" 
    by (rule real_sqrt_unique) (simp_all add: power2_eq_square)
  show "sqrt (2 ^ 1002) = 2 ^ 501" 
    by (rule real_sqrt_unique) (simp_all add: power2_eq_square)
qed

lemma lengthV_err:
  assumes fin: "isFinite (vec_x t)" "isFinite (vec_y t)" "isFinite (vec_z t)"
    and up: "\<bar>valof (vec_x t)\<bar> \<le> 2 ^ 501" "\<bar>valof (vec_y t)\<bar> \<le> 2 ^ 501" 
      "\<bar>valof (vec_z t)\<bar> \<le> 2 ^ 501"
    and low: "1 / 2 ^ 1000 \<le> valof (vec_x t) * valof (vec_x t) + 
      valof (vec_y t) * valof (vec_y t) + valof (vec_z t) * valof (vec_z t)"
  shows "isFinite (lengthV t)"
    and "\<bar>valof (lengthV t) - sqrt (valof (vec_x t) * valof (vec_x t) + 
      valof (vec_y t) * valof (vec_y t) + valof (vec_z t) * valof (vec_z t))\<bar> \<le> 
      sqrt (valof (vec_x t) * valof (vec_x t) + 
      valof (vec_y t) * valof (vec_y t) + valof (vec_z t) * valof (vec_z t)) / 2 ^ 46"
    and "1 / 2 ^ 500 \<le> sqrt (valof (vec_x t) * valof (vec_x t) + 
      valof (vec_y t) * valof (vec_y t) + valof (vec_z t) * valof (vec_z t))"
proof -
  define S where "S = valof (vec_x t) * valof (vec_x t) + 
      valof (vec_y t) * valof (vec_y t) + valof (vec_z t) * valof (vec_z t)"
  define s2 where "s2 = fadd (fadd (fmul (vec_x t) (vec_x t)) (fmul (vec_y t) (vec_y t))) 
      (fmul (vec_z t) (vec_z t))"
  define \<eta> :: real where "\<eta> = 1 / 2 ^ 1075"
  have S0: "0 \<le> S" unfolding S_def by simp
  have lw: "1 / 2 ^ 1000 \<le> S" using low unfolding S_def .
  note e = sum_of_squares_err [OF fin up low, folded S_def s2_def]
  have n: "0 \<le> valof s2"
    using e(2) S0 unfolding abs_diff_le_iff pow2_values by argo
  note q = fsqrt_err [OF e(1) n, folded \<eta>_def]
  have L: "1 / 2 ^ 500 \<le> sqrt S"
    using lw unfolding sqrt_pow2_bounds(1) [symmetric] by (simp only: real_sqrt_le_iff)
  have "\<eta> = 1 / 2 ^ 500 / 2 ^ 575" by (simp add: \<eta>_def)
  also have "\<dots> \<le> sqrt S / 2 ^ 575" using L by (rule divide_right_mono) simp
  also have "\<dots> \<le> sqrt S / 2 ^ 75" using S0 by (intro divide_left_mono) simp_all
  finally have eta: "\<eta> \<le> sqrt S / 2 ^ 75" .
  have r: "\<bar>sqrt (valof s2) - sqrt S\<bar> \<le> sqrt S / 2 ^ 47" by (rule sqrt_rel [OF S0 e(2)])
  have "\<bar>valof (fsqrt s2) - sqrt S\<bar> \<le> sqrt S / 2 ^ 46"
    by (rule length_real [OF _ r q(2) _ eta]) (simp_all add: S0 \<eta>_def)
  then show "\<bar>valof (lengthV t) - sqrt S\<bar> \<le> sqrt S / 2 ^ 46"
    unfolding lengthV_def s2_def .
  show "isFinite (lengthV t)" using q(1) unfolding lengthV_def s2_def .
  show "1 / 2 ^ 500 \<le> sqrt S" by (rule L)
qed

subsection \<open>The length of a normalized vector\<close>

lemma inv_real:
  fixes I w inv \<eta> :: real
  assumes "0 < I" "\<bar>w - I\<bar> \<le> I / 2 ^ 45" "\<bar>inv - w\<bar> \<le> w / 2 ^ 53 + \<eta>" 
    "0 \<le> \<eta>" "\<eta> \<le> I / 2 ^ 75"
  shows "\<bar>inv - I\<bar> \<le> I / 2 ^ 44"
proof -
  have a: "I - I / 2 ^ 45 \<le> w" "w \<le> I + I / 2 ^ 45" 
    "w - (w / 2 ^ 53 + \<eta>) \<le> inv" "inv \<le> w + (w / 2 ^ 53 + \<eta>)"
    using assms(2,3) unfolding abs_diff_le_iff by simp_all
  have u: "inv \<le> I + I / 2 ^ 44"
    using a(2,4) assms(1,4,5) unfolding pow2_values by argo
  have l: "I - I / 2 ^ 44 \<le> inv"
    using a(1,3) assms(1,4,5) unfolding pow2_values by argo
  show ?thesis unfolding abs_diff_le_iff using u l by simp
qed

lemma scaled_real:
  fixes X L inv :: real
  assumes "0 < L" "\<bar>X\<bar> \<le> L" "\<bar>inv - 1 / L\<bar> \<le> 1 / L / 2 ^ 44"
  shows "\<bar>X * inv - X / L\<bar> \<le> 1 / 2 ^ 44" "\<bar>X / L\<bar> \<le> 1"
proof -
  have "\<bar>X\<bar> * \<bar>inv - 1 / L\<bar> \<le> L * (1 / L / 2 ^ 44)"
    using assms by (intro mult_mono) simp_all
  moreover have "\<bar>X\<bar> * \<bar>inv - 1 / L\<bar> = \<bar>X * inv - X / L\<bar>"
    by (simp add: abs_mult [symmetric] algebra_simps del: abs_mult)
  moreover have "L * (1 / L / 2 ^ 44) = 1 / 2 ^ 44" using assms(1) by simp
  ultimately show "\<bar>X * inv - X / L\<bar> \<le> 1 / 2 ^ 44" by simp
  show "\<bar>X / L\<bar> \<le> 1" using assms(1,2) by simp
qed

lemma component_real:
  fixes p m c \<eta> :: real
  assumes "\<bar>p\<bar> \<le> 1" "\<bar>m - p\<bar> \<le> 1 / 2 ^ 44" "\<bar>c - m\<bar> \<le> \<bar>m\<bar> / 2 ^ 53 + \<eta>"
    "0 \<le> \<eta>" "\<eta> \<le> 1 / 2 ^ 75"
  shows "\<bar>c - p\<bar> \<le> 1 / 2 ^ 43"
proof -
  have m: "\<bar>m\<bar> \<le> 2" using assms(1,2) unfolding pow2_values by argo
  have "\<bar>c - m\<bar> \<le> 2 / 2 ^ 53 + \<eta>" using assms(3) m unfolding pow2_values by argo
  then have a: "m - (2 / 2 ^ 53 + \<eta>) \<le> c" "c \<le> m + (2 / 2 ^ 53 + \<eta>)"
    "p - 1 / 2 ^ 44 \<le> m" "m \<le> p + 1 / 2 ^ 44"
    using assms(2) unfolding abs_diff_le_iff by simp_all
  have u: "c \<le> p + 1 / 2 ^ 43" using a(2,4) assms(4,5) unfolding pow2_values by argo
  have l: "p - 1 / 2 ^ 43 \<le> c" using a(1,3) assms(4,5) unfolding pow2_values by argo
  show ?thesis unfolding abs_diff_le_iff using u l by simp
qed

lemma square_near:
  fixes p c :: real
  assumes "\<bar>p\<bar> \<le> 1" "\<bar>c - p\<bar> \<le> 1 / 2 ^ 43"
  shows "\<bar>c * c - p * p\<bar> \<le> 3 / 2 ^ 43"
proof -
  have "\<bar>c + p\<bar> \<le> 3" using assms unfolding pow2_values by argo
  then have "\<bar>c - p\<bar> * \<bar>c + p\<bar> \<le> 1 / 2 ^ 43 * 3"
    using assms(2) by (intro mult_mono) simp_all
  moreover have "\<bar>c - p\<bar> * \<bar>c + p\<bar> = \<bar>c * c - p * p\<bar>"
    by (simp add: abs_mult [symmetric] algebra_simps del: abs_mult)
  ultimately show ?thesis by simp
qed

lemma sqrt_near_one:
  fixes s :: real
  assumes "0 \<le> s"
  shows "\<bar>sqrt s - 1\<bar> \<le> \<bar>s - 1\<bar>"
proof -
  have "(sqrt s - 1) * (sqrt s + 1) = s - 1"
    using assms by (simp add: algebra_simps)
  then have "\<bar>sqrt s - 1\<bar> * \<bar>sqrt s + 1\<bar> = \<bar>s - 1\<bar>"
    by (simp add: abs_mult [symmetric] del: abs_mult)
  moreover have "\<bar>sqrt s - 1\<bar> * 1 \<le> \<bar>sqrt s - 1\<bar> * \<bar>sqrt s + 1\<bar>"
    using assms by (intro mult_left_mono) simp_all
  ultimately show ?thesis by simp
qed

lemma abs_le_sqrt_sum:
  fixes X Y Z :: real
  shows "\<bar>X\<bar> \<le> sqrt (X * X + Y * Y + Z * Z)" "\<bar>Y\<bar> \<le> sqrt (X * X + Y * Y + Z * Z)" 
    "\<bar>Z\<bar> \<le> sqrt (X * X + Y * Y + Z * Z)"
proof -
  have "sqrt (X * X) \<le> sqrt (X * X + Y * Y + Z * Z)" by (simp only: real_sqrt_le_iff) simp
  then show "\<bar>X\<bar> \<le> sqrt (X * X + Y * Y + Z * Z)" by simp
  have "sqrt (Y * Y) \<le> sqrt (X * X + Y * Y + Z * Z)" by (simp only: real_sqrt_le_iff) simp
  then show "\<bar>Y\<bar> \<le> sqrt (X * X + Y * Y + Z * Z)" by simp
  have "sqrt (Z * Z) \<le> sqrt (X * X + Y * Y + Z * Z)" by (simp only: real_sqrt_le_iff) simp
  then show "\<bar>Z\<bar> \<le> sqrt (X * X + Y * Y + Z * Z)" by simp
qed

lemma feq_finite: 
  assumes "isFinite a" "isFinite b" 
  shows "feq a b \<longleftrightarrow> valof a = valof b"
  using isFinite_not_special [OF assms(1)] isFinite_not_special [OF assms(2)]
  by (simp add: feq_def)

lemma scaled_component:
  assumes fx: "isFinite c" and fi: "isFinite rcp" and L: "0 < L" and X: "\<bar>valof c\<bar> \<le> L"
    and i: "\<bar>valof rcp - 1 / L\<bar> \<le> 1 / L / 2 ^ 44"
  shows "isFinite (fmul c rcp)" and "\<bar>valof (fmul c rcp) - valof c / L\<bar> \<le> 1 / 2 ^ 43"
proof -
  define \<eta> :: real where "\<eta> = 1 / 2 ^ 1075"
  note s = scaled_real [OF L X i]
  have "\<bar>valof c * valof rcp\<bar> \<le> 2" using s unfolding pow2_values by argo
  also have "(2::real) < 2 ^ 1023" by simp
  finally have p: "\<bar>valof c * valof rcp\<bar> < 2 ^ 1023" .
  note e = fmul_err [OF fx fi p, folded \<eta>_def]
  show "isFinite (fmul c rcp)" by (rule e(1))
  show "\<bar>valof (fmul c rcp) - valof c / L\<bar> \<le> 1 / 2 ^ 43"
    by (rule component_real [OF s(2) s(1) e(2)]) (simp_all add: \<eta>_def)
qed

lemma normalized_length:
  assumes fin: "isFinite (vec_x t)" "isFinite (vec_y t)" "isFinite (vec_z t)"
    and up: "\<bar>valof (vec_x t)\<bar> \<le> 2 ^ 500" "\<bar>valof (vec_y t)\<bar> \<le> 2 ^ 500" 
      "\<bar>valof (vec_z t)\<bar> \<le> 2 ^ 500"
    and low: "1 / 2 ^ 1000 \<le> valof (vec_x t) * valof (vec_x t) + 
      valof (vec_y t) * valof (vec_y t) + valof (vec_z t) * valof (vec_z t)"
  shows "isFinite (lengthV (normalizedV t))"
    and "\<bar>valof (lengthV (normalizedV t)) - 1\<bar> \<le> 1 / 2 ^ 39"
proof -
  define X where "X = valof (vec_x t)"
  define Y where "Y = valof (vec_y t)"
  define Z where "Z = valof (vec_z t)"
  define S where "S = X * X + Y * Y + Z * Z"
  define L where "L = sqrt S"
  define len where "len = lengthV t"
  define \<eta> :: real where "\<eta> = 1 / 2 ^ 1075"
  have up1: "\<bar>X\<bar> \<le> 2 ^ 501" "\<bar>Y\<bar> \<le> 2 ^ 501" "\<bar>Z\<bar> \<le> 2 ^ 501"
  proof -
    have "(2::real) ^ 500 \<le> 2 ^ 501" by simp
    then show "\<bar>X\<bar> \<le> 2 ^ 501" "\<bar>Y\<bar> \<le> 2 ^ 501" "\<bar>Z\<bar> \<le> 2 ^ 501"
      using up unfolding X_def Y_def Z_def by linarith+
  qed
  note le = lengthV_err [OF fin up1 [unfolded X_def Y_def Z_def] low, 
      folded X_def Y_def Z_def, folded S_def, folded L_def len_def]
  have L500: "1 / 2 ^ 500 \<le> L" by (rule le(3))
  have L0: "0 < L" 
  proof -
    have "(0::real) < 1 / 2 ^ 500" by simp
    then show ?thesis using L500 by linarith
  qed
  have S0: "0 \<le> S" unfolding S_def by simp
  have SL: "L * L = S" unfolding L_def using S0 by simp
  have XL: "\<bar>X\<bar> \<le> L" "\<bar>Y\<bar> \<le> L" "\<bar>Z\<bar> \<le> L"
    unfolding L_def S_def by (rule abs_le_sqrt_sum)+
  have vl: "0 < valof len" "\<bar>1 / valof len - 1 / L\<bar> \<le> 1 / L / 2 ^ 45"
    by (rule reciprocal_real [OF L0 le(2)])+
  show "isFinite (lengthV (normalizedV t))"
    and "\<bar>valof (lengthV (normalizedV t)) - 1\<bar> \<le> 1 / 2 ^ 39"
  proof -
    have "isFinite (lengthV (normalizedV t)) \<and> 
        \<bar>valof (lengthV (normalizedV t)) - 1\<bar> \<le> 1 / 2 ^ 39"
    proof (cases "feq len (lit 0) \<or> feq len (lit 1)")
      case True
      then have n: "normalizedV t = t" by (simp add: normalizedV_def len_def)
      have "\<not> feq len (lit 0)" 
        using vl(1) le(1) by (simp add: feq_finite lit_0 fzero_simps)
      then have "valof len = 1" using True le(1) by (simp add: feq_finite lit_1_simps)
      then show ?thesis using le(1) by (simp add: n len_def [symmetric])
    next
      case False
      define rcp where "rcp = fdiv (lit 1) len"
      have n: "normalizedV t = scaledV t rcp" 
        using False by (simp add: normalizedV_def len_def rcp_def)
      have nz: "\<not> isZero len" using vl(1) by (auto simp: valof_eq_0 [symmetric])
      have I500: "1 / L \<le> 2 ^ 500" 
      proof -
        have "1 / L \<le> 1 / (1 / 2 ^ 500)" using L500 by (intro divide_left_mono) simp_all
        then show ?thesis by simp
      qed
      have "1 / valof len \<le> 1 / L + 1 / L / 2 ^ 45" using vl(2) by linarith
      also have "\<dots> \<le> 2 ^ 500 + 2 ^ 500 / 2 ^ 45" 
        using I500 by (intro add_mono divide_right_mono) simp_all
      also have "\<dots> < 2 ^ 1023" by simp
      finally have "\<bar>valof (lit 1) / valof len\<bar> < 2 ^ 1023" 
        using vl(1) by (simp add: lit_1_simps)
      note d = fdiv_err [OF lit_1_simps(1) le(1) nz this, folded rcp_def \<eta>_def, 
          unfolded lit_1_simps(5)]
      have d2: "\<bar>valof rcp - 1 / valof len\<bar> \<le> 1 / valof len / 2 ^ 53 + \<eta>"
        using d(2) vl(1) by simp
      have L501: "L \<le> 2 ^ 501"
      proof -
        have "X * X \<le> 2 ^ 1000" "Y * Y \<le> 2 ^ 1000" "Z * Z \<le> 2 ^ 1000"
        proof -
          have "\<bar>X\<bar> * \<bar>X\<bar> \<le> 2 ^ 500 * 2 ^ 500" 
            by (rule mult_mono) (use up(1) in \<open>simp_all add: X_def\<close>)
          then show "X * X \<le> 2 ^ 1000" by (simp add: abs_mult_self_eq flip: power_add)
          have "\<bar>Y\<bar> * \<bar>Y\<bar> \<le> 2 ^ 500 * 2 ^ 500" 
            by (rule mult_mono) (use up(2) in \<open>simp_all add: Y_def\<close>)
          then show "Y * Y \<le> 2 ^ 1000" by (simp add: abs_mult_self_eq flip: power_add)
          have "\<bar>Z\<bar> * \<bar>Z\<bar> \<le> 2 ^ 500 * 2 ^ 500" 
            by (rule mult_mono) (use up(3) in \<open>simp_all add: Z_def\<close>)
          then show "Z * Z \<le> 2 ^ 1000" by (simp add: abs_mult_self_eq flip: power_add)
        qed
        then have "S \<le> 3 * 2 ^ 1000" unfolding S_def by linarith
        also have "\<dots> \<le> 2 ^ 1002" by simp
        finally have "sqrt S \<le> sqrt (2 ^ 1002)" by (simp only: real_sqrt_le_iff)
        then show ?thesis unfolding L_def sqrt_pow2_bounds(2) .
      qed
      have eta: "\<eta> \<le> 1 / L / 2 ^ 75"
      proof -
        have "1 / 2 ^ 501 \<le> 1 / L" using L501 L0 by (intro divide_left_mono) simp_all
        then have "1 / 2 ^ 501 / 2 ^ 75 \<le> 1 / L / 2 ^ 75" by (rule divide_right_mono) simp
        moreover have "\<eta> \<le> 1 / 2 ^ 501 / 2 ^ 75" by (simp add: \<eta>_def)
        ultimately show ?thesis by linarith
      qed
      have ivb: "\<bar>valof rcp - 1 / L\<bar> \<le> 1 / L / 2 ^ 44"
        by (rule inv_real [OF _ vl(2) d2 _ eta]) (use L0 in \<open>simp_all add: \<eta>_def\<close>)
      note cx = scaled_component [OF fin(1) d(1) L0 XL(1) [unfolded X_def] ivb, folded X_def]
      note cy = scaled_component [OF fin(2) d(1) L0 XL(2) [unfolded Y_def] ivb, folded Y_def]
      note cz = scaled_component [OF fin(3) d(1) L0 XL(3) [unfolded Z_def] ivb, folded Z_def]
      define x' where "x' = valof (fmul (vec_x t) rcp)"
      define y' where "y' = valof (fmul (vec_y t) rcp)"
      define z' where "z' = valof (fmul (vec_z t) rcp)"
      have p1: "\<bar>X / L\<bar> \<le> 1" "\<bar>Y / L\<bar> \<le> 1" "\<bar>Z / L\<bar> \<le> 1" using XL L0 by simp_all
      have c: "\<bar>x' - X / L\<bar> \<le> 1 / 2 ^ 43" "\<bar>y' - Y / L\<bar> \<le> 1 / 2 ^ 43" 
        "\<bar>z' - Z / L\<bar> \<le> 1 / 2 ^ 43"
        using cx(2) cy(2) cz(2) unfolding x'_def y'_def z'_def by simp_all
      have sq: "\<bar>x' * x' - X / L * (X / L)\<bar> \<le> 3 / 2 ^ 43" 
        "\<bar>y' * y' - Y / L * (Y / L)\<bar> \<le> 3 / 2 ^ 43" 
        "\<bar>z' * z' - Z / L * (Z / L)\<bar> \<le> 3 / 2 ^ 43"
        by (rule square_near [OF p1(1) c(1)], rule square_near [OF p1(2) c(2)], 
            rule square_near [OF p1(3) c(3)])
      have "X / L * (X / L) + Y / L * (Y / L) + Z / L * (Z / L) = S / (L * L)"
        by (simp add: S_def add_divide_distrib)
      also have "\<dots> = 1" using L0 by (simp add: SL [symmetric])
      finally have one: "X / L * (X / L) + Y / L * (Y / L) + Z / L * (Z / L) = 1" .
      define S' where "S' = x' * x' + y' * y' + z' * z'"
      have S1: "\<bar>S' - 1\<bar> \<le> 9 / 2 ^ 43" 
        using sq one unfolding S'_def by linarith
      have up': "\<bar>x'\<bar> \<le> 2 ^ 501" "\<bar>y'\<bar> \<le> 2 ^ 501" "\<bar>z'\<bar> \<le> 2 ^ 501"
      proof -
        have b: "(1::real) + 1 / 2 ^ 43 \<le> 2 ^ 501" by simp
        show "\<bar>x'\<bar> \<le> 2 ^ 501" using c(1) p1(1) b by linarith
        show "\<bar>y'\<bar> \<le> 2 ^ 501" using c(2) p1(2) b by linarith
        show "\<bar>z'\<bar> \<le> 2 ^ 501" using c(3) p1(3) b by linarith
      qed
      have low': "1 / 2 ^ 1000 \<le> S'"
      proof -
        have "(1::real) / 2 ^ 1000 \<le> 1 - 9 / 2 ^ 43" by simp
        then show ?thesis using S1 by linarith
      qed
      have v: "vec_x (scaledV t rcp) = fmul (vec_x t) rcp" 
        "vec_y (scaledV t rcp) = fmul (vec_y t) rcp" 
        "vec_z (scaledV t rcp) = fmul (vec_z t) rcp"
        by (simp_all add: scaledV_def)
      note le' = lengthV_err [of "scaledV t rcp", unfolded v, OF cx(1) cy(1) cz(1) 
          up' [unfolded x'_def y'_def z'_def] low' [unfolded S'_def x'_def y'_def z'_def],
          folded x'_def y'_def z'_def, folded S'_def]
      have S'0: "0 \<le> S'" unfolding S'_def by simp
      have r1: "\<bar>sqrt S' - 1\<bar> \<le> 9 / 2 ^ 43" using sqrt_near_one [OF S'0] S1 by linarith
      have p39: "(2::real) ^ 39 = 549755813888" by simp
      have "\<bar>valof (lengthV (scaledV t rcp)) - 1\<bar> \<le> 1 / 2 ^ 39"
        using le'(2) r1 unfolding pow2_values p39 abs_diff_le_iff by argo
      then show ?thesis using le'(1) by (simp add: n)
    qed
    then show "isFinite (lengthV (normalizedV t))"
      and "\<bar>valof (lengthV (normalizedV t)) - 1\<bar> \<le> 1 / 2 ^ 39" by simp_all
  qed
qed

lemma within_Epsilon_of_one:
  assumes f: "isFinite v" and e: "\<bar>valof v - 1\<bar> \<le> 1 / 2 ^ 39"
  shows "WithinEpsilon v (lit 1) Epsilon"
proof -
  define n where "n = fsub v (lit 1)"
  have f1: "isFinite (fneg (lit 1))" by (simp add: fneg_simps lit_1_simps)
  have v1: "valof (fneg (lit 1)) = - 1" by (simp add: fneg_simps lit_1_simps)
  have "(1::real) / 2 ^ 39 < 2 ^ 1023" by simp
  then have b: "\<bar>valof v + valof (fneg (lit 1))\<bar> < 2 ^ 1023" 
    unfolding v1 using e by linarith
  note r = fadd_err_rel [OF f f1 b, folded fsub_def, folded n_def, unfolded v1]
  have "\<bar>valof n - (valof v - 1)\<bar> \<le> \<bar>valof v - 1\<bar> / 2 ^ 53 + 1 / 2 ^ 1075"
    using r(2) by simp
  also have "\<dots> \<le> 1 / 2 ^ 39 / 2 ^ 53 + 1 / 2 ^ 1075"
    using e by (intro add_mono divide_right_mono) simp_all
  also have "\<dots> \<le> 1 / 2 ^ 39" by simp
  finally have "\<bar>valof n\<bar> \<le> 1 / 2 ^ 39 + 1 / 2 ^ 39" using e by linarith
  also have "\<dots> \<le> valof Epsilon" by (simp add: Epsilon_simps)
  finally have "- valof Epsilon \<le> valof n \<and> valof n \<le> valof Epsilon" by linarith
  then show ?thesis
    using r(1) Epsilon_simps(1)
    by (simp add: WithinEpsilon_def n_def [symmetric] fle_finite fneg_simps)
qed

lemma square_ge:
  fixes a :: real
  shows "1 / 2 ^ 500 \<le> \<bar>a\<bar> \<Longrightarrow> 1 / 2 ^ 1000 \<le> a * a"
proof -
  assume a: "1 / 2 ^ 500 \<le> \<bar>a\<bar>"
  have "(1 / 2 ^ 500) * (1 / 2 ^ 500) \<le> \<bar>a\<bar> * \<bar>a\<bar>"
    by (rule mult_mono [OF a a]) simp_all
  then show ?thesis by (simp add: abs_mult_self_eq flip: power_add)
qed

lemma normalized_length_in_range:
  assumes c: "componentsBelow 500 t"
    and l: "1 / 2 ^ 500 \<le> absval (vec_x t) \<or> 1 / 2 ^ 500 \<le> absval (vec_y t) \<or> 
      1 / 2 ^ 500 \<le> absval (vec_z t)"
  shows "isFinite (lengthV (normalizedV t))"
    and "\<bar>valof (lengthV (normalizedV t)) - 1\<bar> \<le> 1 / 2 ^ 39"
proof -
  have fin: "isFinite (vec_x t)" "isFinite (vec_y t)" "isFinite (vec_z t)"
    using c by (simp_all add: componentsBelow_def)
  have up: "\<bar>valof (vec_x t)\<bar> \<le> 2 ^ 500" "\<bar>valof (vec_y t)\<bar> \<le> 2 ^ 500" 
    "\<bar>valof (vec_z t)\<bar> \<le> 2 ^ 500"
    using c by (simp_all add: componentsBelow_def abs_valof)
  have nn: "0 \<le> valof (vec_x t) * valof (vec_x t)" "0 \<le> valof (vec_y t) * valof (vec_y t)"
    "0 \<le> valof (vec_z t) * valof (vec_z t)" by simp_all
  have low: "1 / 2 ^ 1000 \<le> valof (vec_x t) * valof (vec_x t) + 
      valof (vec_y t) * valof (vec_y t) + valof (vec_z t) * valof (vec_z t)"
    using l
  proof (elim disjE)
    assume "1 / 2 ^ 500 \<le> absval (vec_x t)"
    then have "1 / 2 ^ 1000 \<le> valof (vec_x t) * valof (vec_x t)"
      by (intro square_ge) (simp add: abs_valof)
    then show ?thesis using nn by linarith
  next
    assume "1 / 2 ^ 500 \<le> absval (vec_y t)"
    then have "1 / 2 ^ 1000 \<le> valof (vec_y t) * valof (vec_y t)"
      by (intro square_ge) (simp add: abs_valof)
    then show ?thesis using nn by linarith
  next
    assume "1 / 2 ^ 500 \<le> absval (vec_z t)"
    then have "1 / 2 ^ 1000 \<le> valof (vec_z t) * valof (vec_z t)"
      by (intro square_ge) (simp add: abs_valof)
    then show ?thesis using nn by linarith
  qed
  show "isFinite (lengthV (normalizedV t))"
    by (rule normalized_length(1) [OF fin up low])
  show "\<bar>valof (lengthV (normalizedV t)) - 1\<bar> \<le> 1 / 2 ^ 39"
    by (rule normalized_length(2) [OF fin up low])
qed

lemma length_after_normalize:
  "length_Vector3 (snd (normalize h a)) a = lengthV (normalizedV (vector3s h a))"
  by (simp add: normalize_normalizedV length_lengthV)

lemma normalize_noop:
  assumes "feq (length_Vector3 h a) (lit 0) \<or> feq (length_Vector3 h a) (lit 1)"
  shows "normalize h a = (a, h)"
  using assms by (simp add: normalize_def normalizeFromLength_def)

text \<open>
  C2, as amended.  When \<^verbatim>\<open>a.length()\<close> is 0 or exactly 1.0, \<^verbatim>\<open>a.normalize()\<close> returns
  \<open>a\<close> and changes nothing.  When the components of \<open>a\<close> are finite and of magnitude below
  \<open>2\<^sup>5\<^sup>0\<^sup>0\<close>, and one of them is of magnitude at least \<open>2\<^sup>-\<^sup>5\<^sup>0\<^sup>0\<close>, then after
  \<^verbatim>\<open>a.normalize()\<close> the value of \<^verbatim>\<open>a.length()\<close> is finite, differs from 1 by at most
  \<open>2\<^sup>-\<^sup>3\<^sup>9\<close>, and equals 1.0 within the default epsilon.
\<close>

theorem normalize_length:
  "(feq (length_Vector3 h a) (lit 0) \<or> feq (length_Vector3 h a) (lit 1) \<longrightarrow> 
      normalize h a = (a, h)) \<and>
   (componentsBelow 500 (vector3s h a) \<and>
    (1 / 2 ^ 500 \<le> absval (vec_x (vector3s h a)) \<or> 
     1 / 2 ^ 500 \<le> absval (vec_y (vector3s h a)) \<or> 
     1 / 2 ^ 500 \<le> absval (vec_z (vector3s h a))) \<longrightarrow>
      isFinite (length_Vector3 (snd (normalize h a)) a) \<and>
      \<bar>valof (length_Vector3 (snd (normalize h a)) a) - 1\<bar> \<le> 1 / 2 ^ 39 \<and>
      WithinEpsilon (length_Vector3 (snd (normalize h a)) a) (lit 1) Epsilon)"
proof (intro conjI impI)
  assume "feq (length_Vector3 h a) (lit 0) \<or> feq (length_Vector3 h a) (lit 1)"
  then show "normalize h a = (a, h)" by (rule normalize_noop)
next
  assume r: "componentsBelow 500 (vector3s h a) \<and>
    (1 / 2 ^ 500 \<le> absval (vec_x (vector3s h a)) \<or> 
     1 / 2 ^ 500 \<le> absval (vec_y (vector3s h a)) \<or> 
     1 / 2 ^ 500 \<le> absval (vec_z (vector3s h a)))"
  note n = normalized_length_in_range [OF conjunct1 [OF r] conjunct2 [OF r], 
      folded length_after_normalize]
  show "isFinite (length_Vector3 (snd (normalize h a)) a)" by (rule n(1))
  show "\<bar>valof (length_Vector3 (snd (normalize h a)) a) - 1\<bar> \<le> 1 / 2 ^ 39" by (rule n(2))
  show "WithinEpsilon (length_Vector3 (snd (normalize h a)) a) (lit 1) Epsilon"
    by (rule within_Epsilon_of_one [OF n])
qed

theorem normalize_length_witness:
  "normalize (heapWith (lit 1) (fzero False) (fzero False)) 6 = 
     (6, heapWith (lit 1) (fzero False) (fzero False)) \<and>
   isFinite (length_Vector3 (snd (normalize (heapWith (lit 2) (lit 5) (lit 10)) 6)) 6) \<and>
   \<bar>valof (length_Vector3 (snd (normalize (heapWith (lit 2) (lit 5) (lit 10)) 6)) 6) - 1\<bar> 
      \<le> 1 / 2 ^ 39 \<and>
   WithinEpsilon (length_Vector3 (snd (normalize (heapWith (lit 2) (lit 5) (lit 10)) 6)) 6) 
     (lit 1) Epsilon"
proof -
  have u: "feq (length_Vector3 (heapWith (lit 1) (fzero False) (fzero False)) 6) (lit 1)"
    by (simp add: length_unit_x [OF heapWith_simps(1)] feq_finite lit_1_simps)
  have a: "absval (lit 5) = 5" "absval (lit 10) = 10"
    using abs_valof [of "lit 5"] abs_valof [of "lit 10"] 
    by (simp_all add: lit_5_simps lit_10_simps)
  have c: "componentsBelow 500 (vector3s (heapWith (lit 2) (lit 5) (lit 10)) 6) \<and>
    (1 / 2 ^ 500 \<le> absval (vec_x (vector3s (heapWith (lit 2) (lit 5) (lit 10)) 6)) \<or> 
     1 / 2 ^ 500 \<le> absval (vec_y (vector3s (heapWith (lit 2) (lit 5) (lit 10)) 6)) \<or> 
     1 / 2 ^ 500 \<le> absval (vec_z (vector3s (heapWith (lit 2) (lit 5) (lit 10)) 6)))"
    by (simp add: heapWith_simps componentsBelow_def lit_2_simps lit_5_simps lit_10_simps a)
  show ?thesis
    using normalize_length [of "heapWith (lit 1) (fzero False) (fzero False)" 6, 
        THEN conjunct1, rule_format, OF disjI2, OF u]
      normalize_length [of "heapWith (lit 2) (lit 5) (lit 10)" 6, 
        THEN conjunct2, rule_format, OF c]
    by blast
qed

lemma finf_not_feq: "isFinite b \<Longrightarrow> \<not> feq (finf s) b"
  using isInf_finf(5) [of s] by (auto simp: feq_def isInf_finf)

lemma big_simps: "isFinite (Double False 1535 0)" "\<not> isNaN (Double False 1535 0)" 
  "\<not> isInf (Double False 1535 0)" "\<not> isZero (Double False 1535 0)" 
  "\<not> sign (Double False 1535 0)"
  by (simp_all add: isFinite_def isNaN_def isInf_def isZero_def)

lemma big_squared: "fmul (Double False 1535 0) (Double False 1535 0) = finf False"
proof -
  have a: "absval (Double False 1535 0) * absval (Double False 1535 0) = 2 ^ 1024"
    by (simp add: absval_def ulps_def emin_def)
  have "fround False (2 ^ 1024) = 
      encode False (2046 * 2 ^ 52 + rhe (2 ^ 1024 * 2 ^ emin / 2 ^ 2046))"
    by (rule fround_eval) (simp add: emin_def)
  also have "(2 ^ 1024 * 2 ^ emin / 2 ^ 2046 :: real) = 4503599627370496"
    by (simp add: emin_def)
  also have "rhe \<dots> = 4503599627370496"
    by (simp add: rhe_def)
  also have "encode False (2046 * 2 ^ 52 + 4503599627370496) = finf False"
    by (simp add: encode_def)
  finally have "fround False (2 ^ 1024) = finf False" .
  then show ?thesis by (simp only: fmul_def big_simps a if_False simp_thms)
qed

lemma big_length:
  "lengthV \<lparr>vec_x = Double False 1535 0, vec_y = fzero False, vec_z = fzero False\<rparr> = finf False"
  by (simp add: lengthV_def big_squared fmul_zero_left fzero_simps finf_arith fsqrt_def 
      isInf_finf)

lemma big_normalized:
  "normalizedV \<lparr>vec_x = Double False 1535 0, vec_y = fzero False, vec_z = fzero False\<rparr> = 
     \<lparr>vec_x = fzero False, vec_y = fzero False, vec_z = fzero False\<rparr>"
proof -
  have "\<not> feq (finf False) (lit 0)" "\<not> feq (finf False) (lit 1)"
    by (simp_all add: finf_not_feq lit_0 fzero_simps lit_1_simps)
  moreover have "fdiv (lit 1) (finf False) = fzero False"
    by (simp add: fdiv_def isInf_finf lit_1_simps)
  ultimately show ?thesis 
    by (simp add: normalizedV_def big_length scaledV_def fmul_zero_right fmul_zero_left 
        big_simps fzero_simps)
qed

text \<open>
  C2, the claim as stated fails: the vector (\<open>2\<^sup>5\<^sup>1\<^sup>2\<close>, 0, 0) has finite components, but the
  square of the first overflows, so that its length is Infinity, neither 0 nor 1.0;
  \<^verbatim>\<open>normalize\<close> multiplies the components by 1.0 / Infinity = 0 and leaves (0, 0, 0), whose
  length is 0, which is not within epsilon of 1.
\<close>

theorem normalize_length_counterexample:
  "length_Vector3 (heapWith (Double False 1535 0) (fzero False) (fzero False)) 6 = finf False \<and>
   \<not> feq (length_Vector3 (heapWith (Double False 1535 0) (fzero False) (fzero False)) 6) (lit 0) \<and>
   \<not> feq (length_Vector3 (heapWith (Double False 1535 0) (fzero False) (fzero False)) 6) (lit 1) \<and>
   vector3s (snd (normalize (heapWith (Double False 1535 0) (fzero False) (fzero False)) 6)) 6 =
     \<lparr>vec_x = fzero False, vec_y = fzero False, vec_z = fzero False\<rparr> \<and>
   length_Vector3 (snd (normalize (heapWith (Double False 1535 0) (fzero False) (fzero False)) 6)) 6
     = fzero False \<and>
   \<not> WithinEpsilon 
       (length_Vector3 (snd (normalize (heapWith (Double False 1535 0) (fzero False) (fzero False)) 6)) 6)
       (lit 1) Epsilon"
proof -
  have "\<not> feq (finf False) (lit 0)" "\<not> feq (finf False) (lit 1)"
    by (simp_all add: finf_not_feq lit_0 fzero_simps lit_1_simps)
  moreover have "lengthV \<lparr>vec_x = fzero False, vec_y = fzero False, vec_z = fzero False\<rparr> = 
    fzero False"
    by (simp add: lengthV_def fmul_zero_left fzero_simps fadd_zero_zero fsqrt_zero)
  ultimately show ?thesis
    by (simp add: length_after_normalize length_lengthV heapWith_simps big_length 
        big_normalized normalize_normalizedV not_WithinEpsilon_zero_one)
qed

subsection \<open>Equality of doubles\<close>

lemma valof_inj:
  assumes "isFinite a" "isFinite b" "valof a = valof b" "\<not> isZero a"
  shows "a = b"
proof -
  have "\<not> isZero b" using assms(3,4) valof_eq_0 [of a] valof_eq_0 [of b] by simp
  then have "fround (valof b < 0) \<bar>valof b\<bar> = b" by (rule fround_valof [OF assms(2)])
  moreover have "fround (valof a < 0) \<bar>valof a\<bar> = a" by (rule fround_valof [OF assms(1,4)])
  ultimately show ?thesis using assms(3) by simp
qed

lemma isZero_not_isInf: "isZero d \<Longrightarrow> \<not> isInf d"
  by (simp add: isZero_def isInf_def)

lemma feq_iff: "feq a b \<longleftrightarrow> \<not> isNaN a \<and> \<not> isNaN b \<and> (a = b \<or> isZero a \<and> isZero b)"
proof (cases "isNaN a \<or> isNaN b")
  case True
  then show ?thesis by (auto simp: feq_def)
next
  case nn: False
  show ?thesis
  proof (cases "isInf a \<or> isInf b")
    case True
    then show ?thesis using nn isZero_not_isInf [of a] isZero_not_isInf [of b] 
      by (auto simp: feq_def)
  next
    case False
    then have f: "isFinite a" "isFinite b" using nn by (simp_all add: not_special_isFinite)
    have "valof a = valof b \<longleftrightarrow> a = b \<or> isZero a \<and> isZero b"
    proof
      assume e: "valof a = valof b"
      show "a = b \<or> isZero a \<and> isZero b"
      proof (cases "isZero a")
        case True
        then have "isZero b" using e valof_eq_0 [of a] valof_eq_0 [of b] by simp
        then show ?thesis using True by simp
      next
        case False
        then show ?thesis using valof_inj [OF f e] by simp
      qed
    next
      assume "a = b \<or> isZero a \<and> isZero b"
      then show "valof a = valof b" using valof_eq_0 [of a] valof_eq_0 [of b] by auto
    qed
    then show ?thesis using nn False by (simp add: feq_def)
  qed
qed

lemma lits_differ: "lit 1 \<noteq> lit 10" "lit 2 \<noteq> lit 10" "lit 5 \<noteq> lit 10"
proof -
  have "valof (lit 1) \<noteq> valof (lit 10)" "valof (lit 2) \<noteq> valof (lit 10)" 
    "valof (lit 5) \<noteq> valof (lit 10)"
    by (simp_all add: lit_1_simps lit_2_simps lit_5_simps lit_10_simps)
  then show "lit 1 \<noteq> lit 10" "lit 2 \<noteq> lit 10" "lit 5 \<noteq> lit 10" by auto
qed

text \<open>
  C10.  \<^verbatim>\<open>equals\<close> is strict IEEE equality of each pair of components: \<^verbatim>\<open>v.equals(w)\<close>
  is true exactly when, for \<open>x\<close>, \<open>y\<close> and \<open>z\<close>, neither of the two components is NaN and
  the two are the same double or are both zeros (\<open>-0\<close> and \<open>+0\<close> compare equal).  Hence
  \<^verbatim>\<open>v.equals(v)\<close> is true exactly when no component of \<open>v\<close> is NaN, and two vectors
  whose components are zeros are equal whatever the signs of the zeros.
\<close>

theorem equals_strict_IEEE:
  "(equals h v w \<longleftrightarrow>
      (\<not> isNaN (vec_x (vector3s h v)) \<and> \<not> isNaN (vec_x (vector3s h w)) \<and>
       (vec_x (vector3s h v) = vec_x (vector3s h w) \<or>
        isZero (vec_x (vector3s h v)) \<and> isZero (vec_x (vector3s h w)))) \<and>
      (\<not> isNaN (vec_y (vector3s h v)) \<and> \<not> isNaN (vec_y (vector3s h w)) \<and>
       (vec_y (vector3s h v) = vec_y (vector3s h w) \<or>
        isZero (vec_y (vector3s h v)) \<and> isZero (vec_y (vector3s h w)))) \<and>
      (\<not> isNaN (vec_z (vector3s h v)) \<and> \<not> isNaN (vec_z (vector3s h w)) \<and>
       (vec_z (vector3s h v) = vec_z (vector3s h w) \<or>
        isZero (vec_z (vector3s h v)) \<and> isZero (vec_z (vector3s h w))))) \<and>
   (equals h v w \<longleftrightarrow>
      feq (vec_x (vector3s h v)) (vec_x (vector3s h w)) \<and>
      feq (vec_y (vector3s h v)) (vec_y (vector3s h w)) \<and>
      feq (vec_z (vector3s h v)) (vec_z (vector3s h w))) \<and>
   (equals h v v \<longleftrightarrow>
      \<not> isNaN (vec_x (vector3s h v)) \<and> \<not> isNaN (vec_y (vector3s h v)) \<and>
      \<not> isNaN (vec_z (vector3s h v))) \<and>
   (vector3s h a = \<lparr>vec_x = fzero s1, vec_y = fzero s2, vec_z = fzero s3\<rparr> \<and>
    vector3s h b = \<lparr>vec_x = fzero s4, vec_y = fzero s5, vec_z = fzero s6\<rparr>
      \<longrightarrow> equals h a b)"
proof (intro conjI)
  show e: "equals h v w \<longleftrightarrow>
      feq (vec_x (vector3s h v)) (vec_x (vector3s h w)) \<and>
      feq (vec_y (vector3s h v)) (vec_y (vector3s h w)) \<and>
      feq (vec_z (vector3s h v)) (vec_z (vector3s h w))"
    by (simp add: equals_def)
  show "equals h v w \<longleftrightarrow>
      (\<not> isNaN (vec_x (vector3s h v)) \<and> \<not> isNaN (vec_x (vector3s h w)) \<and>
       (vec_x (vector3s h v) = vec_x (vector3s h w) \<or>
        isZero (vec_x (vector3s h v)) \<and> isZero (vec_x (vector3s h w)))) \<and>
      (\<not> isNaN (vec_y (vector3s h v)) \<and> \<not> isNaN (vec_y (vector3s h w)) \<and>
       (vec_y (vector3s h v) = vec_y (vector3s h w) \<or>
        isZero (vec_y (vector3s h v)) \<and> isZero (vec_y (vector3s h w)))) \<and>
      (\<not> isNaN (vec_z (vector3s h v)) \<and> \<not> isNaN (vec_z (vector3s h w)) \<and>
       (vec_z (vector3s h v) = vec_z (vector3s h w) \<or>
        isZero (vec_z (vector3s h v)) \<and> isZero (vec_z (vector3s h w))))"
    unfolding e feq_iff ..
  show "equals h v v \<longleftrightarrow>
      \<not> isNaN (vec_x (vector3s h v)) \<and> \<not> isNaN (vec_y (vector3s h v)) \<and>
      \<not> isNaN (vec_z (vector3s h v))"
    by (simp add: equals_def feq_refl_iff)
  show "vector3s h a = \<lparr>vec_x = fzero s1, vec_y = fzero s2, vec_z = fzero s3\<rparr> \<and>
    vector3s h b = \<lparr>vec_x = fzero s4, vec_y = fzero s5, vec_z = fzero s6\<rparr>
      \<longrightarrow> equals h a b"
    by (simp add: equals_def feq_zeros)
qed

theorem equals_strict_IEEE_witness:
  "\<not> equals (heapWith2 fnan (lit 1) (lit 1) (fzero False) (fzero False) (fzero False)) 6 6 \<and>
   equals (heapWith2 (lit 1) (fzero True) (lit 2) (lit 1) (fzero False) (lit 2)) 6 6 \<and>
   equals (heapWith2 (lit 1) (fzero True) (lit 2) (lit 1) (fzero False) (lit 2)) 6 7 \<and>
   \<not> equals (heapWith2 (lit 1) (lit 2) (lit 5) (lit 10) (lit 10) (lit 10)) 6 7 \<and>
   \<not> equals (heapWith2 (lit 1) (lit 2) (lit 5) (lit 1) (lit 2) (lit 10)) 6 7 \<and>
   equals (heapWith2 (fzero True) (fzero True) (fzero True) 
             (fzero False) (fzero False) (fzero False)) 6 7"
proof (intro conjI)
  show "\<not> equals (heapWith2 fnan (lit 1) (lit 1) (fzero False) (fzero False) (fzero False)) 6 6"
    using equals_strict_IEEE
          [of "heapWith2 fnan (lit 1) (lit 1) (fzero False) (fzero False) (fzero False)" 6 6]
    by (simp add: heapWith2_simps isNaN_fnan)
  show "equals (heapWith2 (lit 1) (fzero True) (lit 2) (lit 1) (fzero False) (lit 2)) 6 6"
    using equals_strict_IEEE
          [of "heapWith2 (lit 1) (fzero True) (lit 2) (lit 1) (fzero False) (lit 2)" 6 6]
    by (simp add: heapWith2_simps lit_1_simps lit_2_simps fzero_simps)
  show "equals (heapWith2 (lit 1) (fzero True) (lit 2) (lit 1) (fzero False) (lit 2)) 6 7"
    using equals_strict_IEEE
          [of "heapWith2 (lit 1) (fzero True) (lit 2) (lit 1) (fzero False) (lit 2)" 6 7]
    by (simp add: heapWith2_simps lit_1_simps lit_2_simps fzero_simps)
  show "\<not> equals (heapWith2 (lit 1) (lit 2) (lit 5) (lit 10) (lit 10) (lit 10)) 6 7"
    using equals_strict_IEEE
          [of "heapWith2 (lit 1) (lit 2) (lit 5) (lit 10) (lit 10) (lit 10)" 6 7]
    by (simp add: heapWith2_simps lits_differ lit_1_simps)
  show "\<not> equals (heapWith2 (lit 1) (lit 2) (lit 5) (lit 1) (lit 2) (lit 10)) 6 7"
    using equals_strict_IEEE
          [of "heapWith2 (lit 1) (lit 2) (lit 5) (lit 1) (lit 2) (lit 10)" 6 7]
    by (simp add: heapWith2_simps lits_differ lit_5_simps)
  show "equals (heapWith2 (fzero True) (fzero True) (fzero True) 
             (fzero False) (fzero False) (fzero False)) 6 7"
    using equals_strict_IEEE
          [of "heapWith2 (fzero True) (fzero True) (fzero True) 
             (fzero False) (fzero False) (fzero False)" 6 7 6 True True True 7 False False False]
    by (simp add: heapWith2_simps fzero_simps)
qed

subsection \<open>Normalizing the three axes\<close>









subsection \<open>The axes of length 2\<close>










end
